theory Spec2Isabelle
  imports Main
begin

section \<open>FileRenamer: names, date prefixes, the file system\<close>

text \<open>
  A shallow embedding of the class \<open>FileRenamer\<close> of \<open>1.0.1.py\<close>. Python strings are
  modelled as \<open>string\<close>, read as sequences of code points below 256 (among these, the
  regular expression class \<open>\d\<close> matches exactly the ASCII digits). File contents are
  byte strings, again \<open>char list\<close>.
\<close>

type_synonym path = string
type_synonym timestamp = int
type_synonym digest = string

subsection \<open>\<open>clean_filename\<close>\<close>

text \<open>The character class \<open>[\\/*?:"<>|]\<close> of \<open>clean_filename\<close>.\<close>

definition illegal_chars :: "char list" where
  "illegal_chars =
     [CHR 0x5C, CHR ''/'', CHR ''*'', CHR ''?'', CHR '':'', CHR 0x22, CHR ''<'', CHR ''>'', CHR ''|'']"

text \<open>\<open>re.sub(illegal_chars, "_", filename)\<close>: every match is one character.\<close>

definition clean_filename :: "string \<Rightarrow> string" where
  "clean_filename filename =
     map (\<lambda>c. if c \<in> set illegal_chars then CHR ''_'' else c) filename"

subsection \<open>The pattern \<open>^\d{4}-\d{2}-\d{2} \<close>\<close>

datatype atom = Digit | Lit char

definition is_digit :: "char \<Rightarrow> bool" where
  "is_digit c = (c \<in> set ''0123456789'')"

fun atom_matches :: "atom \<Rightarrow> char \<Rightarrow> bool" where
  "atom_matches Digit c = is_digit c"
| "atom_matches (Lit l) c = (c = l)"

text \<open>
  Matching a sequence of one-character atoms at the start of a string; the result is
  the rest of the string after the match.
\<close>

fun match_start :: "atom list \<Rightarrow> string \<Rightarrow> string option" where
  "match_start [] s = Some s"
| "match_start (a # as) [] = None"
| "match_start (a # as) (c # cs) = (if atom_matches a c then match_start as cs else None)"

definition date_prefix_pattern :: "atom list" where
  "date_prefix_pattern =
     replicate 4 Digit @ [Lit CHR ''-''] @ replicate 2 Digit @ [Lit CHR ''-'']
       @ replicate 2 Digit @ [Lit CHR '' '']"

text \<open>
  \<open>re.sub(r"^\d{4}-\d{2}-\d{2} ", "", file)\<close>: the anchor \<open>^\<close> matches at the start of
  the string only, so at most one match is replaced.
\<close>

definition remove_date_prefix :: "string \<Rightarrow> string" where
  "remove_date_prefix file =
     (case match_start date_prefix_pattern file of Some rest \<Rightarrow> rest | None \<Rightarrow> file)"

definition has_valid_date_prefix :: "string \<Rightarrow> string \<Rightarrow> bool" where
  "has_valid_date_prefix file date_prefix =
     (let cleaned_file = clean_filename file
      in take (length date_prefix) cleaned_file = date_prefix)"

definition has_yy_mm_dd_prefix :: "string \<Rightarrow> bool" where
  "has_yy_mm_dd_prefix file =
     (let cleaned_file = clean_filename file
      in match_start date_prefix_pattern cleaned_file \<noteq> None)"

definition remove_yy_mm_dd_prefix :: "string \<Rightarrow> string" where
  "remove_yy_mm_dd_prefix file =
     (case match_start date_prefix_pattern file of Some rest \<Rightarrow> rest | None \<Rightarrow> file)"

subsection \<open>\<open>os.path\<close> (the POSIX flavour)\<close>

text \<open>\<open>s.rfind(c)\<close>: the highest index of \<open>c\<close> in \<open>s\<close>, or \<open>-1\<close>.\<close>

fun rfind :: "char \<Rightarrow> string \<Rightarrow> int" where
  "rfind c [] = - 1"
| "rfind c (x # xs) =
     (let r = rfind c xs in if 0 \<le> r then r + 1 else if x = c then 0 else - 1)"

definition basename :: "path \<Rightarrow> string" where
  "basename p = (let i = rfind CHR ''/'' p + 1 in drop (nat i) p)"

definition rstrip :: "char \<Rightarrow> string \<Rightarrow> string" where
  "rstrip c s = rev (dropWhile (\<lambda>x. x = c) (rev s))"

definition dirname :: "path \<Rightarrow> path" where
  "dirname p =
     (let i = rfind CHR ''/'' p + 1;
          head = take (nat i) p
      in if head \<noteq> [] \<and> head \<noteq> replicate (length head) CHR ''/''
         then rstrip CHR ''/'' head else head)"

definition join :: "path \<Rightarrow> string \<Rightarrow> path" where
  "join a b =
     (if take 1 b = ''/'' then b
      else if a = [] \<or> last a = CHR ''/'' then a @ b
      else a @ ''/'' @ b)"

text \<open>
  \<open>os.path.splitext\<close>: the extension starts at the last dot of the last path
  component, unless only dots stand before it in that component.
\<close>

definition splitext :: "path \<Rightarrow> string \<times> string" where
  "splitext p =
     (let sepIndex = rfind CHR ''/'' p;
          dotIndex = rfind CHR ''.'' p
      in if dotIndex > sepIndex
            \<and> list_ex (\<lambda>x. x \<noteq> CHR ''.'')
                 (take (nat (dotIndex - (sepIndex + 1))) (drop (nat (sepIndex + 1)) p))
         then (take (nat dotIndex) p, drop (nat dotIndex) p)
         else (p, []))"

subsection \<open>Decimal numerals and \<open>strftime("%Y-%m-%d")\<close>\<close>

definition digit_char :: "nat \<Rightarrow> char" where
  "digit_char n = ''0123456789'' ! n"

text \<open>\<open>str(n)\<close> for a non-negative integer.\<close>

fun str_nat :: "nat \<Rightarrow> string" where
  "str_nat n = (if n < 10 then [digit_char n] else str_nat (n div 10) @ [digit_char (n mod 10)])"

declare str_nat.simps [simp del]

text \<open>
  The calendar fields of a \<open>datetime\<close>: \<open>1 \<le> year \<le> 9999\<close>, \<open>1 \<le> month \<le> 12\<close>,
  \<open>1 \<le> day \<le> 31\<close>.
\<close>

record date =
  year :: nat
  month :: nat
  day :: nat


definition zfill :: "nat \<Rightarrow> string \<Rightarrow> string" where
  "zfill w s = replicate (w - length s) CHR ''0'' @ s"

text \<open>
  \<open>strftime("%Y-%m-%d")\<close> as the C library of a POSIX host (glibc) prints it: the
  year as a decimal number without padding, so a year below 1000 has fewer than four
  digits; month and day padded with zeros to two digits.
\<close>

definition strftime_ymd :: "date \<Rightarrow> string" where
  "strftime_ymd d =
     str_nat (year d) @ ''-'' @ zfill 2 (str_nat (month d)) @ ''-''
       @ zfill 2 (str_nat (day d))"

subsection \<open>The file system\<close>

text \<open>
  A file system state maps a path to the regular file stored there. The two time
  stamps are what \<open>os.path.getctime\<close> and \<open>os.path.getmtime\<close> return (seconds);
  \<open>readable\<close> says whether \<open>open(path, "rb")\<close> succeeds. Directories are not entries
  of the map.
\<close>

record regfile =
  content :: string
  ctime :: timestamp
  mtime :: timestamp
  readable :: bool

type_synonym fs = "path \<rightharpoonup> regfile"

datatype exn =
    FileNotFoundError path
  | PermissionError path
  | ValueError
  | OverflowError

definition path_exists :: "fs \<Rightarrow> path \<Rightarrow> bool" where
  "path_exists disk p = (disk p \<noteq> None)"

definition getctime :: "fs \<Rightarrow> path \<Rightarrow> exn + timestamp" where
  "getctime disk p = (case disk p of None \<Rightarrow> Inl (FileNotFoundError p) | Some f \<Rightarrow> Inr (ctime f))"

definition getmtime :: "fs \<Rightarrow> path \<Rightarrow> exn + timestamp" where
  "getmtime disk p = (case disk p of None \<Rightarrow> Inl (FileNotFoundError p) | Some f \<Rightarrow> Inr (mtime f))"

definition getsize :: "fs \<Rightarrow> path \<Rightarrow> exn + nat" where
  "getsize disk p =
     (case disk p of None \<Rightarrow> Inl (FileNotFoundError p) | Some f \<Rightarrow> Inr (length (content f)))"

definition open_rb :: "fs \<Rightarrow> path \<Rightarrow> exn + string" where
  "open_rb disk p =
     (case disk p of
        None \<Rightarrow> Inl (FileNotFoundError p)
      | Some f \<Rightarrow> if readable f then Inr (content f) else Inl (PermissionError p))"

definition os_remove :: "fs \<Rightarrow> path \<Rightarrow> exn + fs" where
  "os_remove disk p =
     (case disk p of None \<Rightarrow> Inl (FileNotFoundError p) | Some f \<Rightarrow> Inr (disk(p := None)))"

text \<open>\<open>os.rename\<close> with the POSIX behaviour: an existing destination file is replaced.\<close>

definition os_rename :: "fs \<Rightarrow> path \<Rightarrow> path \<Rightarrow> exn + fs" where
  "os_rename disk src dst =
     (case disk src of
        None \<Rightarrow> Inl (FileNotFoundError src)
      | Some f \<Rightarrow> Inr (disk(src := None, dst \<mapsto> f)))"

subsection \<open>\<open>calculate_file_hash\<close> and \<open>check_duplicate_file\<close>\<close>

text \<open>
  The loop of \<open>calculate_file_hash\<close>: \<open>f.read(block_size)\<close> returns the next block of
  the file, the loop ends at the first empty block. A hasher is represented by the bytes
  fed to it so far (\<open>fed\<close>); \<open>hasher.update(data)\<close> appends to them.
\<close>

function read_blocks :: "nat \<Rightarrow> string \<Rightarrow> string \<Rightarrow> string" where
  "read_blocks block_size rest fed =
     (if take block_size rest = [] then fed
      else read_blocks block_size (drop block_size rest) (fed @ take block_size rest))"
  by pat_completeness auto
termination
  by (relation "measure (\<lambda>(block_size, rest, fed). length rest)") auto

declare read_blocks.simps [simp del]

text \<open>
  The digest function of \<open>hashlib.md5\<close> is a parameter, \<open>md5\<close>: the digest of the bytes
  fed to the hasher.
\<close>

definition calculate_file_hash :: "(string \<Rightarrow> digest) \<Rightarrow> fs \<Rightarrow> path \<Rightarrow> nat \<Rightarrow> exn + digest" where
  "calculate_file_hash md5 disk filepath block_size =
     (case open_rb disk filepath of
        Inl e \<Rightarrow> Inl e
      | Inr bytes \<Rightarrow> Inr (md5 (read_blocks block_size bytes [])))"

definition check_duplicate_file :: "(string \<Rightarrow> digest) \<Rightarrow> fs \<Rightarrow> path \<Rightarrow> path \<Rightarrow> exn + bool" where
  "check_duplicate_file md5 disk file_path new_path =
     (case getsize disk file_path of
        Inl e \<Rightarrow> Inl e
      | Inr size_a \<Rightarrow>
          (case getsize disk new_path of
             Inl e \<Rightarrow> Inl e
           | Inr size_b \<Rightarrow>
               if size_a \<noteq> size_b then Inr False
               else (case calculate_file_hash md5 disk file_path 65536 of
                       Inl e \<Rightarrow> Inl e
                     | Inr hash_a \<Rightarrow>
                         (case calculate_file_hash md5 disk new_path 65536 of
                            Inl e \<Rightarrow> Inl e
                          | Inr hash_b \<Rightarrow> Inr (hash_a = hash_b)))))"

subsection \<open>\<open>get_file_time\<close>\<close>

definition get_file_time :: "fs \<Rightarrow> path \<Rightarrow> string \<Rightarrow> exn + timestamp" where
  "get_file_time disk filepath time_type =
     (if time_type = ''creation'' then getctime disk filepath
      else if time_type = ''modification'' then getmtime disk filepath
      else Inl ValueError)"

subsection \<open>\<open>handle_filename_conflict\<close>\<close>

text \<open>
  The \<open>while os.path.exists(new_path)\<close> loop. The source has no bound on the number of
  rounds, so the loop is a partial function: \<open>None\<close> stands for a run that never returns.
\<close>

partial_function (option) conflict_loop ::
  "fs \<Rightarrow> path \<Rightarrow> string \<Rightarrow> string \<Rightarrow> string \<Rightarrow> path \<Rightarrow> nat \<Rightarrow> (string \<rightharpoonup> nat)
     \<Rightarrow> (path \<times> (string \<rightharpoonup> nat)) option" where
  "conflict_loop disk base_dir base_name base_name_without_ext file_ext
       new_path conflict_count conflict_files =
     (if path_exists disk new_path then
        conflict_loop disk base_dir base_name base_name_without_ext file_ext
          (join base_dir (base_name_without_ext @ ''_'' @ str_nat (conflict_count + 1) @ file_ext))
          (conflict_count + 1)
          (conflict_files(base_name \<mapsto> conflict_count + 1))
      else Some (new_path, conflict_files))"

definition handle_filename_conflict ::
  "fs \<Rightarrow> path \<Rightarrow> string \<Rightarrow> (string \<rightharpoonup> nat) \<Rightarrow> (path \<times> (string \<rightharpoonup> nat)) option" where
  "handle_filename_conflict disk new_path original_name conflict_files =
     (let base_dir = dirname new_path;
          base_name = basename new_path;
          name_parts = splitext base_name;
          base_name_without_ext = fst name_parts;
          file_ext = snd name_parts;
          conflict_count = (case conflict_files base_name of Some c \<Rightarrow> c | None \<Rightarrow> 0)
      in conflict_loop disk base_dir base_name base_name_without_ext file_ext
           new_path conflict_count conflict_files)"

subsection \<open>The two operations\<close>

text \<open>
  What \<open>signals.progress.emit\<close> is called with, one constructor for each message:
  \<open>AlreadyCorrect original_name\<close>, \<open>DuplicateRemoved original_name\<close>,
  \<open>SkippedConflict original_name new_name\<close>, \<open>Renamed original_name new_name\<close> (also
  for the message of a restored name), \<open>SkippedNotEligible original_name\<close>,
  \<open>Failed file_path e\<close> and the final \<open>AllDone\<close> of the worker.
\<close>

datatype event =
    AlreadyCorrect string
  | DuplicateRemoved string
  | SkippedConflict string string
  | Renamed string string
  | SkippedNotEligible string
  | Failed path exn
  | AllDone

text \<open>
  The run of a \<open>try\<close> block: the events emitted, the file system it leaves, and the
  exception that ended it, if one did.
\<close>

type_synonym outcome = "event list \<times> fs \<times> exn option"

text \<open>
  The end of both operations, from \<open>if os.path.exists(new_path)\<close> to the last \<open>emit\<close>,
  which the source has twice, with the same statements.
\<close>

definition replace_or_skip ::
  "(string \<Rightarrow> digest) \<Rightarrow> fs \<Rightarrow> path \<Rightarrow> path \<Rightarrow> string \<Rightarrow> string \<Rightarrow> outcome" where
  "replace_or_skip md5 disk file_path new_path original_name new_name =
     (if path_exists disk new_path then
        (case check_duplicate_file md5 disk file_path new_path of
           Inl e \<Rightarrow> ([], disk, Some e)
         | Inr is_dup \<Rightarrow>
             if is_dup then
               (case os_remove disk new_path of
                  Inl e \<Rightarrow> ([DuplicateRemoved original_name], disk, Some e)
                | Inr disk1 \<Rightarrow>
                    (case os_rename disk1 file_path new_path of
                       Inl e \<Rightarrow> ([DuplicateRemoved original_name], disk1, Some e)
                     | Inr disk2 \<Rightarrow>
                         ([DuplicateRemoved original_name, Renamed original_name new_name],
                          disk2, None)))
             else ([SkippedConflict original_name new_name], disk, None))
      else
        (case os_rename disk file_path new_path of
           Inl e \<Rightarrow> ([], disk, Some e)
         | Inr disk2 \<Rightarrow> ([Renamed original_name new_name], disk2, None)))"

text \<open>
  The \<open>try\<close> block of \<open>rename_file_with_date\<close>. \<open>fromtimestamp\<close> is the conversion of
  \<open>datetime.datetime.fromtimestamp\<close> to the local calendar date, a parameter. The
  workers of the thread pool share the directory: \<open>others\<close> is what they do to it
  between the return of \<open>handle_filename_conflict\<close> and the next
  \<open>os.path.exists(new_path)\<close>; a worker that runs alone has the identity there.
\<close>

definition rename_file_with_date_try ::
  "(timestamp \<Rightarrow> exn + date) \<Rightarrow> (string \<Rightarrow> digest) \<Rightarrow> (fs \<Rightarrow> fs) \<Rightarrow> fs \<Rightarrow> path \<Rightarrow> string
     \<Rightarrow> outcome option" where
  "rename_file_with_date_try fromtimestamp md5 others disk file_path time_type =
     (case get_file_time disk file_path time_type of
        Inl e \<Rightarrow> Some ([], disk, Some e)
      | Inr file_time \<Rightarrow>
          (case fromtimestamp file_time of
             Inl e \<Rightarrow> Some ([], disk, Some e)
           | Inr d \<Rightarrow>
               (let date_formatted = strftime_ymd d;
                    date_prefix = date_formatted @ '' '';
                    original_name = basename file_path;
                    cleaned_name = clean_filename original_name;
                    name_without_prefix = remove_date_prefix cleaned_name;
                    new_name = date_prefix @ name_without_prefix;
                    new_path = join (dirname file_path) new_name
                in if has_valid_date_prefix name_without_prefix date_prefix
                   then Some ([AlreadyCorrect original_name], disk, None)
                   else (case handle_filename_conflict disk new_path original_name Map.empty of
                           None \<Rightarrow> None
                         | Some (resolved_path, conflict_files) \<Rightarrow>
                             Some (replace_or_skip md5 (others disk) file_path resolved_path
                                     original_name new_name)))))"

text \<open>\<open>except Exception as e\<close>: one more event, and the operation returns.\<close>

definition catch_all :: "path \<Rightarrow> outcome option \<Rightarrow> (event list \<times> fs) option" where
  "catch_all file_path r =
     (case r of
        None \<Rightarrow> None
      | Some (events, disk, None) \<Rightarrow> Some (events, disk)
      | Some (events, disk, Some e) \<Rightarrow> Some (events @ [Failed file_path e], disk))"

definition rename_file_with_date ::
  "(timestamp \<Rightarrow> exn + date) \<Rightarrow> (string \<Rightarrow> digest) \<Rightarrow> (fs \<Rightarrow> fs) \<Rightarrow> fs \<Rightarrow> path \<Rightarrow> string
     \<Rightarrow> (event list \<times> fs) option" where
  "rename_file_with_date fromtimestamp md5 others disk file_path time_type =
     catch_all file_path
       (rename_file_with_date_try fromtimestamp md5 others disk file_path time_type)"

definition restore_original_name_try ::
  "(string \<Rightarrow> digest) \<Rightarrow> (fs \<Rightarrow> fs) \<Rightarrow> fs \<Rightarrow> path \<Rightarrow> outcome option" where
  "restore_original_name_try md5 others disk file_path =
     (let original_name = basename file_path;
          cleaned_name = clean_filename original_name
      in if \<not> has_yy_mm_dd_prefix cleaned_name
         then Some ([SkippedNotEligible original_name], disk, None)
         else (let new_name = remove_yy_mm_dd_prefix cleaned_name;
                   new_path = join (dirname file_path) new_name
               in (case handle_filename_conflict disk new_path original_name Map.empty of
                     None \<Rightarrow> None
                   | Some (resolved_path, conflict_files) \<Rightarrow>
                       Some (replace_or_skip md5 (others disk) file_path resolved_path
                               original_name new_name))))"

definition restore_original_name ::
  "(string \<Rightarrow> digest) \<Rightarrow> (fs \<Rightarrow> fs) \<Rightarrow> fs \<Rightarrow> path \<Rightarrow> (event list \<times> fs) option" where
  "restore_original_name md5 others disk file_path =
     catch_all file_path (restore_original_name_try md5 others disk file_path)"

subsection \<open>\<open>RenamingWorker\<close>\<close>

text \<open>
  The task submitted for one file, by operation mode, and \<open>run\<close> on the files that
  \<open>os.walk\<close> lists, taken in the order of submission. The percentage events of the
  worker are left out.
\<close>

definition worker_task ::
  "(timestamp \<Rightarrow> exn + date) \<Rightarrow> (string \<Rightarrow> digest) \<Rightarrow> (fs \<Rightarrow> fs) \<Rightarrow> string \<Rightarrow> string \<Rightarrow> fs \<Rightarrow> path
     \<Rightarrow> (event list \<times> fs) option" where
  "worker_task fromtimestamp md5 others time_type operation_mode disk file_path =
     (if operation_mode = ''add_prefix''
      then rename_file_with_date fromtimestamp md5 others disk file_path time_type
      else if operation_mode = ''restore_name''
      then restore_original_name md5 others disk file_path
      else Some ([], disk))"

fun run_tasks ::
  "(fs \<Rightarrow> path \<Rightarrow> (event list \<times> fs) option) \<Rightarrow> fs \<Rightarrow> path list \<Rightarrow> (event list \<times> fs) option" where
  "run_tasks task disk [] = Some ([], disk)"
| "run_tasks task disk (file_path # rest) =
     (case task disk file_path of
        None \<Rightarrow> None
      | Some (events, disk1) \<Rightarrow>
          (case run_tasks task disk1 rest of
             None \<Rightarrow> None
           | Some (events', disk2) \<Rightarrow> Some (events @ events', disk2)))"

definition run ::
  "(timestamp \<Rightarrow> exn + date) \<Rightarrow> (string \<Rightarrow> digest) \<Rightarrow> (fs \<Rightarrow> fs) \<Rightarrow> string \<Rightarrow> string \<Rightarrow> fs \<Rightarrow> path list
     \<Rightarrow> (event list \<times> fs) option" where
  "run fromtimestamp md5 others time_type operation_mode disk files =
     (case run_tasks (worker_task fromtimestamp md5 others time_type operation_mode) disk files of
        None \<Rightarrow> None
      | Some (events, disk') \<Rightarrow> Some (events @ [AllDone], disk'))"

subsection \<open>Example states\<close>

text \<open>
  The states of the examples: a file; a host whose local date is 5 March 2024 for every
  time stamp; four directories; and a concurrent worker that creates
  \<open>2024-03-05 report.txt\<close> with other bytes.
\<close>

definition report_file :: regfile where
  "report_file = \<lparr>content = ''data'', ctime = 1709600000, mtime = 1709600000, readable = True\<rparr>"

definition march5 :: "timestamp \<Rightarrow> exn + date" where
  "march5 t = Inr \<lparr>year = 2024, month = 3, day = 5\<rparr>"

definition disk_plain :: fs where
  "disk_plain = [''/d/report.txt'' \<mapsto> report_file]"

definition disk_prefixed :: fs where
  "disk_prefixed = [''/d/2024-03-05 report.txt'' \<mapsto> report_file]"

definition disk_twin :: fs where
  "disk_twin = [''/d/report.txt'' \<mapsto> report_file, ''/d/2024-03-05 report.txt'' \<mapsto> report_file]"

definition disk_colon :: fs where
  "disk_colon = [''/d/2024-03-05 a:b.txt'' \<mapsto> report_file]"

definition intruder :: "fs \<Rightarrow> fs" where
  "intruder disk = disk(''/d/2024-03-05 report.txt'' \<mapsto> report_file\<lparr>content := ''other data''\<rparr>)"




text \<open>
  The directory \<open>/d\<close> with the files \<open>a.txt\<close>, \<open>a_1.txt\<close>, \<dots>, \<open>a_M.txt\<close>.
\<close>

definition crowded :: "nat \<Rightarrow> fs" where
  "crowded M =
     map_of (map (\<lambda>p. (p, report_file))
       (''/d/a.txt'' # map (\<lambda>k. ''/d/a_'' @ str_nat k @ ''.txt'') [1..<Suc M]))"

section \<open>Properties\<close>

subsection \<open>Sanitization\<close>

lemma clean_filename_length: "length (clean_filename x) = length x"
  by (simp add: clean_filename_def)

lemma underscore_legal: "CHR ''_'' \<notin> set illegal_chars"
  by (simp add: illegal_chars_def)

lemma clean_filename_legal: "set (clean_filename x) \<inter> set illegal_chars = {}"
  using underscore_legal by (auto simp: clean_filename_def)

lemma clean_filename_idem: "clean_filename (clean_filename x) = clean_filename x"
  using underscore_legal by (simp add: clean_filename_def)

text \<open>
  C7. \<open>clean_filename\<close> replaces every occurrence of one of the nine characters
  \<open>\ / * ? : " < > |\<close> by an underscore and leaves every other character as it is, so
  the result has the length of the input and none of the nine characters; and cleaning
  a second time changes nothing.
\<close>

theorem clean_filename_sanitizes:
  "length (clean_filename x) = length x
   \<and> list_all2 (\<lambda>c d. d = (if c \<in> set illegal_chars then CHR ''_'' else c)) x (clean_filename x)
   \<and> set (clean_filename x) \<inter> set illegal_chars = {}
   \<and> clean_filename (clean_filename x) = clean_filename x"
proof -
  have "list_all2 (\<lambda>c d. d = (if c \<in> set illegal_chars then CHR ''_'' else c)) x (clean_filename x)"
    by (simp add: clean_filename_def list_all2_conv_all_nth)
  then show ?thesis
    using clean_filename_length clean_filename_legal clean_filename_idem by blast
qed

subsection \<open>Decimal numerals\<close>

lemma digit_char_is_digit: "n < 10 \<Longrightarrow> is_digit (digit_char n)"
  unfolding is_digit_def digit_char_def by (rule nth_mem) simp

lemma digit_char_inj: "n < 10 \<Longrightarrow> m < 10 \<Longrightarrow> digit_char n = digit_char m \<Longrightarrow> n = m"
proof -
  assume a: "n < 10" "m < 10" "digit_char n = digit_char m"
  have d: "distinct ''0123456789''" by simp
  have l: "length ''0123456789'' = 10" by simp
  from a d l show ?thesis
    unfolding digit_char_def by (metis nth_eq_iff_index_eq)
qed

lemma str_nat_digits: "list_all is_digit (str_nat n)"
proof (induction n rule: str_nat.induct)
  case (1 n)
  show ?case
  proof (cases "n < 10")
    case True
    then show ?thesis by (simp add: str_nat.simps [of n] digit_char_is_digit)
  next
    case False
    with 1 show ?thesis by (simp add: str_nat.simps [of n] digit_char_is_digit)
  qed
qed

lemma str_nat_nonempty: "str_nat n \<noteq> []"
  by (simp add: str_nat.simps [of n])

lemma str_nat_inj: "str_nat n = str_nat m \<Longrightarrow> n = m"
proof (induction n arbitrary: m rule: str_nat.induct)
  case (1 n)
  show ?case
  proof (cases "n < 10")
    case n: True
    show ?thesis
    proof (cases "m < 10")
      case True
      with n 1(2) show ?thesis
        by (simp add: str_nat.simps [of n] str_nat.simps [of m] digit_char_inj)
    next
      case False
      with n 1(2) str_nat_nonempty [of "m div 10"] show ?thesis
        by (simp add: str_nat.simps [of n] str_nat.simps [of m])
    qed
  next
    case n: False
    show ?thesis
    proof (cases "m < 10")
      case True
      with n 1(2) str_nat_nonempty [of "n div 10"] show ?thesis
        by (simp add: str_nat.simps [of n] str_nat.simps [of m])
    next
      case False
      with n 1(2) have e: "str_nat (n div 10) = str_nat (m div 10)"
        and l: "digit_char (n mod 10) = digit_char (m mod 10)"
        by (simp_all add: str_nat.simps [of n] str_nat.simps [of m])
      from 1(1) [OF n e] have "n div 10 = m div 10" .
      moreover from l have "n mod 10 = m mod 10"
        by (intro digit_char_inj) simp_all
      ultimately show ?thesis by (metis div_mult_mod_eq)
    qed
  qed
qed





lemma match_start_lit: "match_start (Lit c # pat) (c # s) = match_start pat s"
  by simp





lemma date_prefix_pattern_atoms:
  "date_prefix_pattern =
     [Digit, Digit, Digit, Digit, Lit CHR ''-'', Digit, Digit, Lit CHR ''-'', Digit, Digit,
      Lit CHR '' '']"
  by (simp add: date_prefix_pattern_def numeral_eq_Suc)

lemma strftime_ymd_example: "strftime_ymd \<lparr>year = 2024, month = 3, day = 5\<rparr> = ''2024-03-05''"
  by (simp add: strftime_ymd_def zfill_def str_nat.simps digit_char_def)


subsection \<open>Paths\<close>

lemma rfind_absent: "c \<notin> set s \<Longrightarrow> rfind c s = - 1"
  by (induction s) (auto simp: Let_def)

lemma nat_int_succ: "nat (int n + 1) = Suc n"
  by simp

lemma rfind_last: "c \<notin> set b \<Longrightarrow> rfind c (a @ c # b) = int (length a)"
  by (induction a) (simp_all add: Let_def rfind_absent)

lemma rfind_cases:
  obtains (absent) "c \<notin> set s" "rfind c s = - 1"
  | (present) a b where "s = a @ c # b" "c \<notin> set b" "rfind c s = int (length a)"
proof (cases "c \<in> set s")
  case True
  then obtain a b where "s = a @ c # b" "c \<notin> set b" by (meson split_list_last)
  then show ?thesis using present rfind_last by blast
next
  case False
  then show ?thesis using absent rfind_absent by blast
qed

lemma basename_no_sep: "CHR ''/'' \<notin> set (basename p)"
  by (cases "CHR ''/''" p rule: rfind_cases) (simp_all add: basename_def nat_int_succ)

lemma basename_plain: "CHR ''/'' \<notin> set x \<Longrightarrow> basename x = x"
  by (simp add: basename_def rfind_absent)

lemma basename_append:
  assumes "CHR ''/'' \<notin> set x" "pre = [] \<or> last pre = CHR ''/''"
  shows "basename (pre @ x) = x"
proof (cases "pre = []")
  case True
  then show ?thesis using assms by (simp add: basename_plain)
next
  case False
  with assms obtain a where "pre = a @ ''/''" by (metis append_butlast_last_id)
  then show ?thesis using assms(1) by (simp add: basename_def rfind_last nat_int_succ)
qed

lemma join_relative:
  "take 1 b \<noteq> ''/'' \<Longrightarrow> join a b = (if a = [] \<or> last a = CHR ''/'' then a else a @ ''/'') @ b"
  by (simp add: join_def)

lemma take1_no_sep: "CHR ''/'' \<notin> set x \<Longrightarrow> take 1 x \<noteq> ''/''"
  by (cases x) auto

lemma basename_join:
  assumes "CHR ''/'' \<notin> set x"
  shows "basename (join d x) = x"
proof -
  have "join d x = (if d = [] \<or> last d = CHR ''/'' then d else d @ ''/'') @ x"
    using take1_no_sep [OF assms] by (rule join_relative)
  then show ?thesis using assms by (simp add: basename_append)
qed

lemma join_candidate_inj:
  assumes "join d (stem @ ''_'' @ str_nat n @ ext) = join d (stem @ ''_'' @ str_nat m @ ext)"
  shows "n = m"
proof -
  have t: "take 1 (stem @ ''_'' @ r) = take 1 (stem @ ''_'')" for r :: string
    by (cases stem) simp_all
  have "stem @ ''_'' @ str_nat n @ ext = stem @ ''_'' @ str_nat m @ ext"
  proof (cases "take 1 (stem @ ''_'') = ''/''")
    case True
    then show ?thesis using assms t [of "str_nat n @ ext"] t [of "str_nat m @ ext"]
      by (simp add: join_def)
  next
    case False
    then have "take 1 (stem @ ''_'' @ str_nat n @ ext) \<noteq> ''/''"
      "take 1 (stem @ ''_'' @ str_nat m @ ext) \<noteq> ''/''"
      using t [of "str_nat n @ ext"] t [of "str_nat m @ ext"] by simp_all
    then show ?thesis using assms by (simp add: join_relative)
  qed
  then have "str_nat n = str_nat m" by simp
  then show ?thesis by (rule str_nat_inj)
qed

lemma splitext_no_sep:
  "CHR ''/'' \<notin> set s \<Longrightarrow>
     splitext s =
       (if 0 \<le> rfind CHR ''.'' s \<and> list_ex (\<lambda>x. x \<noteq> CHR ''.'') (take (nat (rfind CHR ''.'' s)) s)
        then (take (nat (rfind CHR ''.'' s)) s, drop (nat (rfind CHR ''.'' s)) s) else (s, []))"
  by (auto simp add: splitext_def rfind_absent Let_def)

lemma splitext_cases [consumes 1, case_names ext none]:
  assumes "CHR ''/'' \<notin> set s"
  obtains (ext) stem e where "s = stem @ CHR ''.'' # e" "CHR ''.'' \<notin> set e"
      "list_ex (\<lambda>x. x \<noteq> CHR ''.'') stem" "splitext s = (stem, CHR ''.'' # e)"
  | (none) k r where "s = replicate k CHR ''.'' @ r" "CHR ''.'' \<notin> set r" "splitext s = (s, [])"
proof (cases "CHR ''.''" s rule: rfind_cases)
  case absent
  then have "splitext s = (s, [])" using assms by (simp add: splitext_no_sep)
  then show ?thesis using none [of 0 s] absent by simp
next
  case (present a b)
  show ?thesis
  proof (cases "list_ex (\<lambda>x. x \<noteq> CHR ''.'') a")
    case True
    then have "splitext s = (a, CHR ''.'' # b)" using assms present by (simp add: splitext_no_sep)
    then show ?thesis using ext present True by blast
  next
    case False
    then have a: "a = replicate (length a) CHR ''.''"
      by (simp add: list_ex_iff replicate_length_same)
    have "splitext s = (s, [])" using assms present False by (simp add: splitext_no_sep)
    moreover have "s = replicate (Suc (length a)) CHR ''.'' @ b"
      using a present(1) by (metis append_Cons replicate_Suc replicate_app_Cons_same)
    ultimately show ?thesis using none present(2) by blast
  qed
qed

lemma splitext_parts: "CHR ''/'' \<notin> set s \<Longrightarrow> fst (splitext s) @ snd (splitext s) = s"
  by (cases s rule: splitext_cases) auto

lemma splitext_insert:
  assumes s: "CHR ''/'' \<notin> set s" and mid: "CHR ''/'' \<notin> set mid" "CHR ''.'' \<notin> set mid" "mid \<noteq> []"
  shows "splitext (fst (splitext s) @ mid @ snd (splitext s)) = (fst (splitext s) @ mid, snd (splitext s))"
  using s
proof (cases s rule: splitext_cases)
  case (ext stem e)
  let ?n = "(stem @ mid) @ CHR ''.'' # e"
  have n: "CHR ''/'' \<notin> set ?n" using s mid ext(1) by auto
  have r: "rfind CHR ''.'' ?n = int (length (stem @ mid))" using ext(2) by (rule rfind_last)
  have "list_ex (\<lambda>x. x \<noteq> CHR ''.'') (stem @ mid)" using ext(3) by (auto simp: list_ex_iff)
  then have "splitext ?n = (stem @ mid, CHR ''.'' # e)"
    unfolding splitext_no_sep [OF n] r by simp
  then show ?thesis using ext(4) by simp
next
  case (none k r)
  let ?n = "replicate k CHR ''.'' @ r @ mid"
  have n: "CHR ''/'' \<notin> set ?n" using s mid none(1) by auto
  have "splitext ?n = (?n, [])"
  proof (cases k)
    case 0
    then have "CHR ''.'' \<notin> set ?n" using none(2) mid by simp
    then show ?thesis using n by (simp add: splitext_no_sep rfind_absent)
  next
    case (Suc j)
    then have e: "?n = replicate j CHR ''.'' @ CHR ''.'' # (r @ mid)"
      by (simp add: replicate_app_Cons_same)
    have "rfind CHR ''.'' (replicate j CHR ''.'' @ CHR ''.'' # (r @ mid)) = int (length (replicate j CHR ''.''))"
      using none(2) mid by (intro rfind_last) simp
    then have "rfind CHR ''.'' ?n = int j" using e by simp
    moreover have "take j ?n = replicate j CHR ''.''" using e by simp
    ultimately show ?thesis unfolding splitext_no_sep [OF n] by (simp add: list_ex_iff)
  qed
  then show ?thesis using none by simp
qed

subsection \<open>The conflict loop\<close>

lemma conflict_loop_free:
  "\<not> path_exists disk p \<Longrightarrow> conflict_loop disk bd bn stem ext p c cf = Some (p, cf)"
  by (subst conflict_loop.simps) simp

lemma conflict_loop_step:
  "path_exists disk p \<Longrightarrow>
     conflict_loop disk bd bn stem ext p c cf =
       conflict_loop disk bd bn stem ext (join bd (stem @ ''_'' @ str_nat (c + 1) @ ext)) (c + 1)
         (cf(bn \<mapsto> c + 1))"
  by (subst conflict_loop.simps) simp

lemma conflict_loop_least:
  assumes "\<not> path_exists disk (join bd (stem @ ''_'' @ str_nat M @ ext))"
    and "c < M"
    and "\<forall>k. c < k \<and> k < M \<longrightarrow> path_exists disk (join bd (stem @ ''_'' @ str_nat k @ ext))"
    and "path_exists disk p"
  shows "conflict_loop disk bd bn stem ext p c cf =
           Some (join bd (stem @ ''_'' @ str_nat M @ ext), cf(bn \<mapsto> M))"
  using assms
proof (induction "M - Suc c" arbitrary: c p cf)
  case 0
  then have M: "M = c + 1" by simp
  have "conflict_loop disk bd bn stem ext p c cf =
          conflict_loop disk bd bn stem ext (join bd (stem @ ''_'' @ str_nat (c + 1) @ ext)) (c + 1)
            (cf(bn \<mapsto> c + 1))"
    using "0.prems"(4) by (rule conflict_loop_step)
  also have "\<dots> = Some (join bd (stem @ ''_'' @ str_nat (c + 1) @ ext), cf(bn \<mapsto> c + 1))"
    using "0.prems"(1) unfolding M by (rule conflict_loop_free)
  finally show ?case unfolding M .
next
  case (Suc d)
  then have lt: "c + 1 < M" and d: "d = M - Suc (c + 1)" by simp_all
  have ex: "path_exists disk (join bd (stem @ ''_'' @ str_nat (c + 1) @ ext))"
    using Suc.prems(3) lt by simp
  have tk: "\<forall>k. c + 1 < k \<and> k < M \<longrightarrow> path_exists disk (join bd (stem @ ''_'' @ str_nat k @ ext))"
    using Suc.prems(3) by simp
  have "conflict_loop disk bd bn stem ext (join bd (stem @ ''_'' @ str_nat (c + 1) @ ext)) (c + 1)
          (cf(bn \<mapsto> c + 1))
        = Some (join bd (stem @ ''_'' @ str_nat M @ ext), (cf(bn \<mapsto> c + 1))(bn \<mapsto> M))"
    by (rule Suc.hyps(1) [OF d Suc.prems(1) lt tk ex])
  moreover have "conflict_loop disk bd bn stem ext p c cf =
          conflict_loop disk bd bn stem ext (join bd (stem @ ''_'' @ str_nat (c + 1) @ ext)) (c + 1)
            (cf(bn \<mapsto> c + 1))"
    using Suc.prems(4) by (rule conflict_loop_step)
  ultimately show ?case by (simp only: fun_upd_upd)
qed

lemma free_candidate_exists:
  assumes "finite (dom disk)"
  shows "\<exists>k>c. \<not> path_exists disk (join bd (stem @ ''_'' @ str_nat k @ ext))"
proof (rule ccontr)
  let ?cand = "\<lambda>k. join bd (stem @ ''_'' @ str_nat k @ ext)"
  assume "\<not> (\<exists>k>c. \<not> path_exists disk (?cand k))"
  then have "?cand ` {k. c < k} \<subseteq> dom disk" by (auto simp: path_exists_def)
  then have "finite (?cand ` {k. c < k})" using assms by (rule finite_subset)
  moreover have "inj_on ?cand {k. c < k}" by (rule inj_onI) (rule join_candidate_inj)
  ultimately have "finite {k. c < k}" by (rule finite_imageD)
  then show False by (simp add: finite_nat_set_iff_bounded_le) (metis less_Suc_eq_le max.cobounded1 max.cobounded2 not_less)
qed

lemma handle_filename_conflict_least:
  fixes disk :: fs and p :: path and cf :: "string \<rightharpoonup> nat"
  assumes fin: "finite (dom disk)"
  defines "c0 \<equiv> (case cf (basename p) of Some c \<Rightarrow> c | None \<Rightarrow> 0)"
  defines "cand \<equiv> (\<lambda>k. join (dirname p)
             (fst (splitext (basename p)) @ ''_'' @ str_nat k @ snd (splitext (basename p))))"
  defines "N \<equiv> (LEAST k. c0 < k \<and> \<not> path_exists disk (cand k))"
  shows "handle_filename_conflict disk p original_name cf =
           Some (if path_exists disk p then (cand N, cf(basename p \<mapsto> N)) else (p, cf))
         \<and> c0 < N \<and> \<not> path_exists disk (cand N)
         \<and> (\<forall>k. c0 < k \<and> k < N \<longrightarrow> path_exists disk (cand k))"
proof -
  have "\<exists>k. c0 < k \<and> \<not> path_exists disk (cand k)"
    using free_candidate_exists [OF fin] unfolding cand_def by blast
  then have N: "c0 < N \<and> \<not> path_exists disk (cand N)"
    unfolding N_def by (rule LeastI_ex)
  have taken: "\<forall>k. c0 < k \<and> k < N \<longrightarrow> path_exists disk (cand k)"
    unfolding N_def using not_less_Least by blast
  have "handle_filename_conflict disk p original_name cf =
           Some (if path_exists disk p then (cand N, cf(basename p \<mapsto> N)) else (p, cf))"
  proof (cases "path_exists disk p")
    case True
    have "conflict_loop disk (dirname p) (basename p) (fst (splitext (basename p)))
            (snd (splitext (basename p))) p c0 cf
          = Some (cand N, cf(basename p \<mapsto> N))"
      unfolding cand_def
      by (rule conflict_loop_least) (use N taken True in \<open>simp_all add: cand_def\<close>)
    then show ?thesis using True by (simp add: handle_filename_conflict_def c0_def)
  next
    case False
    then show ?thesis by (simp add: handle_filename_conflict_def conflict_loop_free)
  qed
  with N taken show ?thesis by blast
qed

lemma str_nat_plain: "CHR ''/'' \<notin> set (str_nat k)" "CHR ''.'' \<notin> set (str_nat k)"
proof -
  have a: "\<forall>c \<in> set (str_nat k). is_digit c" using str_nat_digits [of k] by (simp add: list_all_iff)
  have "\<not> is_digit CHR ''/''" "\<not> is_digit CHR ''.''" by (simp_all add: is_digit_def)
  with a show "CHR ''/'' \<notin> set (str_nat k)" "CHR ''.'' \<notin> set (str_nat k)" by blast+
qed

lemma splitext_no_sep_parts:
  "CHR ''/'' \<notin> set s \<Longrightarrow> CHR ''/'' \<notin> set (fst (splitext s)) \<and> CHR ''/'' \<notin> set (snd (splitext s))"
proof -
  assume s: "CHR ''/'' \<notin> set s"
  have "set (fst (splitext s) @ snd (splitext s)) = set s" by (simp only: splitext_parts [OF s])
  with s show ?thesis by auto
qed

lemma candidate_basename:
  "basename (join d (fst (splitext (basename p)) @ ''_'' @ str_nat k @ snd (splitext (basename p))))
     = fst (splitext (basename p)) @ ''_'' @ str_nat k @ snd (splitext (basename p))"
proof -
  have b: "CHR ''/'' \<notin> set (basename p)" by (rule basename_no_sep)
  have "CHR ''/'' \<notin> set (fst (splitext (basename p)) @ ''_'' @ str_nat k @ snd (splitext (basename p)))"
    using splitext_no_sep_parts [OF b] str_nat_plain(1) [of k] by simp
  then show ?thesis by (rule basename_join)
qed

lemma candidate_splitext:
  "splitext (fst (splitext (basename p)) @ ''_'' @ str_nat k @ snd (splitext (basename p)))
     = (fst (splitext (basename p)) @ ''_'' @ str_nat k, snd (splitext (basename p)))"
proof -
  have b: "CHR ''/'' \<notin> set (basename p)" by (rule basename_no_sep)
  have m: "CHR ''/'' \<notin> set (''_'' @ str_nat k)" "CHR ''.'' \<notin> set (''_'' @ str_nat k)"
    "''_'' @ str_nat k \<noteq> []"
    using str_nat_plain [of k] by simp_all
  have "splitext (fst (splitext (basename p)) @ (''_'' @ str_nat k) @ snd (splitext (basename p)))
     = (fst (splitext (basename p)) @ (''_'' @ str_nat k), snd (splitext (basename p)))"
    using b m by (rule splitext_insert)
  then show ?thesis by simp
qed

lemma path_literals:
  "basename ''/d/a.txt'' = ''a.txt''" "dirname ''/d/a.txt'' = ''/d''"
  "splitext ''a.txt'' = (''a'', ''.txt'')"
  by (simp_all add: basename_def dirname_def splitext_def rstrip_def Let_def)

lemma conflict_example:
  "handle_filename_conflict [''/d/a.txt'' \<mapsto> report_file, ''/d/a_1.txt'' \<mapsto> report_file]
        ''/d/a.txt'' ''a.txt'' Map.empty
      = Some (''/d/a_2.txt'', [''a.txt'' \<mapsto> 2])"
proof -
  let ?disk = "[''/d/a.txt'' \<mapsto> report_file, ''/d/a_1.txt'' \<mapsto> report_file]"
  have j1: "join ''/d'' (''a'' @ ''_'' @ str_nat (0 + 1) @ ''.txt'') = ''/d/a_1.txt''"
    and j2: "join ''/d'' (''a'' @ ''_'' @ str_nat (0 + 1 + 1) @ ''.txt'') = ''/d/a_2.txt''"
    by (simp_all add: join_def str_nat.simps digit_char_def)
  have e: "path_exists ?disk ''/d/a.txt''" "path_exists ?disk ''/d/a_1.txt''"
    "\<not> path_exists ?disk ''/d/a_2.txt''"
    by (simp_all add: path_exists_def)
  have "conflict_loop ?disk ''/d'' ''a.txt'' ''a'' ''.txt'' ''/d/a.txt'' 0 Map.empty
      = conflict_loop ?disk ''/d'' ''a.txt'' ''a'' ''.txt'' ''/d/a_1.txt'' (0 + 1)
          [''a.txt'' \<mapsto> 0 + 1]"
    using e(1) by (simp only: conflict_loop_step j1)
  also have "\<dots> = conflict_loop ?disk ''/d'' ''a.txt'' ''a'' ''.txt'' ''/d/a_2.txt'' (0 + 1 + 1)
          [''a.txt'' \<mapsto> 0 + 1 + 1]"
    using e(2) by (simp only: conflict_loop_step j2 fun_upd_upd)
  also have "\<dots> = Some (''/d/a_2.txt'', [''a.txt'' \<mapsto> 0 + 1 + 1])"
    using e(3) by (rule conflict_loop_free)
  finally show ?thesis
    by (simp add: handle_filename_conflict_def path_literals numeral_2_eq_2)
qed

text \<open>
  C4. Let only finitely many paths exist, and let the table have no entry for the base
  name of the desired path \<open>p\<close>, as in both calls of the program, which pass an empty
  table. Then \<open>handle_filename_conflict\<close> returns \<open>p\<close> itself when \<open>p\<close> is free, and
  otherwise the path in the directory of \<open>p\<close> whose name is the stem of the base name,
  \<open>_N\<close> and the extension of the base name, for the least \<open>N \<ge> 1\<close> whose path is free
  (the paths for \<open>1, \<dots>, N - 1\<close> all exist). The returned path does not exist, and
  \<open>os.path.splitext\<close> splits the new base name into the stem with \<open>_N\<close> and the
  unchanged extension.
\<close>

theorem handle_filename_conflict_resolves:
  fixes disk :: fs and p :: path and cf :: "string \<rightharpoonup> nat"
  assumes fin: "finite (dom disk)" and fresh: "cf (basename p) = None"
  defines "stem \<equiv> fst (splitext (basename p))"
  defines "ext \<equiv> snd (splitext (basename p))"
  defines "cand \<equiv> (\<lambda>k. join (dirname p) (stem @ ''_'' @ str_nat k @ ext))"
  defines "N \<equiv> (LEAST k. 0 < k \<and> \<not> path_exists disk (cand k))"
  shows "handle_filename_conflict disk p original_name cf =
           Some (if path_exists disk p then (cand N, cf(basename p \<mapsto> N)) else (p, cf))
         \<and> \<not> path_exists disk (if path_exists disk p then cand N else p)
         \<and> 1 \<le> N \<and> (\<forall>k. 1 \<le> k \<and> k < N \<longrightarrow> path_exists disk (cand k))
         \<and> basename (cand N) = stem @ ''_'' @ str_nat N @ ext
         \<and> splitext (basename (cand N)) = (stem @ ''_'' @ str_nat N, ext)"
proof -
  have c0: "(case cf (basename p) of Some c \<Rightarrow> c | None \<Rightarrow> 0) = (0::nat)"
    by (simp only: fresh option.case)
  have l: "handle_filename_conflict disk p original_name cf =
           Some (if path_exists disk p then (cand N, cf(basename p \<mapsto> N)) else (p, cf))
         \<and> 0 < N \<and> \<not> path_exists disk (cand N)
         \<and> (\<forall>k. 0 < k \<and> k < N \<longrightarrow> path_exists disk (cand k))"
    unfolding N_def cand_def stem_def ext_def
    using handle_filename_conflict_least [OF fin, where cf = cf and p = p
      and original_name = original_name]
    unfolding c0 .
  have b: "basename (cand N) = stem @ ''_'' @ str_nat N @ ext"
    unfolding cand_def stem_def ext_def by (rule candidate_basename)
  have s: "splitext (stem @ ''_'' @ str_nat N @ ext) = (stem @ ''_'' @ str_nat N, ext)"
    unfolding stem_def ext_def by (rule candidate_splitext)
  have t: "\<forall>k. 1 \<le> k \<and> k < N \<longrightarrow> path_exists disk (cand k)"
    using l by (simp add: Suc_le_eq)
  have n: "1 \<le> N" using l by (simp add: Suc_le_eq)
  have f: "\<not> path_exists disk (if path_exists disk p then cand N else p)"
    using l by (cases "path_exists disk p") (simp_all only: if_True if_False not_False_eq_True)
  have r: "handle_filename_conflict disk p original_name cf =
           Some (if path_exists disk p then (cand N, cf(basename p \<mapsto> N)) else (p, cf))"
    using l by (rule conjunct1)
  have s': "splitext (basename (cand N)) = (stem @ ''_'' @ str_nat N, ext)"
    using s unfolding b .
  show ?thesis
    by (intro conjI) (rule r f n t b s')+
qed

theorem handle_filename_conflict_resolves_witness:
  "finite (dom [''/d/a.txt'' \<mapsto> report_file, ''/d/a_1.txt'' \<mapsto> report_file])
   \<and> handle_filename_conflict [''/d/a.txt'' \<mapsto> report_file, ''/d/a_1.txt'' \<mapsto> report_file]
        ''/d/a.txt'' ''a.txt'' Map.empty
      = Some (''/d/a_2.txt'', [''a.txt'' \<mapsto> 2])
   \<and> \<not> path_exists [''/d/a.txt'' \<mapsto> report_file, ''/d/a_1.txt'' \<mapsto> report_file] ''/d/a_2.txt''
   \<and> splitext (basename ''/d/a_2.txt'') = (''a_2'', ''.txt'')"
proof -
  let ?disk = "[''/d/a.txt'' \<mapsto> report_file, ''/d/a_1.txt'' \<mapsto> report_file]"
  have fin: "finite (dom ?disk)" by simp
  have ex: "path_exists ?disk ''/d/a.txt''" by (simp add: path_exists_def)
  have t: "handle_filename_conflict ?disk ''/d/a.txt'' ''a.txt'' Map.empty = Some (if path_exists ?disk ''/d/a.txt'' then (c, m) else (''/d/a.txt'', Map.empty))
      \<Longrightarrow> \<not> path_exists ?disk (if path_exists ?disk ''/d/a.txt'' then c else ''/d/a.txt'')
      \<Longrightarrow> \<not> path_exists ?disk ''/d/a_2.txt''" for c m
    unfolding conflict_example by (simp add: ex)
  note r = handle_filename_conflict_resolves [where disk = ?disk and cf = Map.empty
      and p = "''/d/a.txt''" and original_name = "''a.txt''", OF fin]
  have "\<not> path_exists ?disk ''/d/a_2.txt''"
    by (rule t [OF r [THEN conjunct1] r [THEN conjunct2, THEN conjunct1]]) simp_all
  moreover have "splitext (basename ''/d/a_2.txt'') = (''a_2'', ''.txt'')"
    by (simp add: basename_def splitext_def Let_def)
  ultimately show ?thesis using fin conflict_example by blast
qed

text \<open>
  C5, as the code has it. The loop of \<open>handle_filename_conflict\<close> has no maximum
  number of attempts and no failure of its own: whenever only finitely many paths exist
  it returns, for every desired path and every table, and the path it returns does not
  exist.
\<close>

theorem handle_filename_conflict_terminates:
  "finite (dom disk) \<Longrightarrow>
     \<exists>r. handle_filename_conflict disk p original_name cf = Some r \<and> \<not> path_exists disk (fst r)"
proof -
  assume fin: "finite (dom disk)"
  define c0 where "c0 = (case cf (basename p) of Some c \<Rightarrow> c | None \<Rightarrow> (0::nat))"
  define cand where "cand = (\<lambda>k. join (dirname p)
             (fst (splitext (basename p)) @ ''_'' @ str_nat k @ snd (splitext (basename p))))"
  define N where "N = (LEAST k. c0 < k \<and> \<not> path_exists disk (cand k))"
  have l: "handle_filename_conflict disk p original_name cf =
           Some (if path_exists disk p then (cand N, cf(basename p \<mapsto> N)) else (p, cf))
         \<and> c0 < N \<and> \<not> path_exists disk (cand N)
         \<and> (\<forall>k. c0 < k \<and> k < N \<longrightarrow> path_exists disk (cand k))"
    unfolding N_def cand_def c0_def by (rule handle_filename_conflict_least [OF fin])
  show ?thesis
  proof (cases "path_exists disk p")
    case True
    with l have "handle_filename_conflict disk p original_name cf = Some (cand N, cf(basename p \<mapsto> N))"
      and "\<not> path_exists disk (fst (cand N, cf(basename p \<mapsto> N)))"
      by simp_all
    then show ?thesis by blast
  next
    case False
    with l have "handle_filename_conflict disk p original_name cf = Some (p, cf)"
      and "\<not> path_exists disk (fst (p, cf))"
      by simp_all
    then show ?thesis by blast
  qed
qed

theorem handle_filename_conflict_terminates_witness:
  "finite (dom [''/d/a.txt'' \<mapsto> report_file])
   \<and> (\<exists>r. handle_filename_conflict [''/d/a.txt'' \<mapsto> report_file] ''/d/a.txt'' ''a.txt'' Map.empty
            = Some r
          \<and> \<not> path_exists [''/d/a.txt'' \<mapsto> report_file] (fst r))"
  using handle_filename_conflict_terminates [where disk = "[''/d/a.txt'' \<mapsto> report_file]"
      and p = "''/d/a.txt''" and original_name = "''a.txt''" and cf = Map.empty]
  by simp

lemma map_of_constant:
  "map_of (map (\<lambda>p. (p, v)) ps) p = (if p \<in> set ps then Some v else None)"
  by (induction ps) simp_all

lemma map_of_constant_exists: "(map_of (map (\<lambda>p. (p, v)) ps) p \<noteq> None) = (p \<in> set ps)"
  by (simp add: map_of_constant)

lemma crowded_exists:
  "path_exists (crowded M) p
     = (p = ''/d/a.txt'' \<or> (\<exists>k. 1 \<le> k \<and> k \<le> M \<and> p = ''/d/a_'' @ str_nat k @ ''.txt''))"
  unfolding path_exists_def crowded_def map_of_constant_exists
  by (auto simp del: upt_Suc simp add: less_Suc_eq_le)

lemma crowded_candidate:
  "join ''/d'' (''a'' @ ''_'' @ str_nat k @ ''.txt'') = ''/d/a_'' @ str_nat k @ ''.txt''"
  by (simp add: join_def)

lemma crowded_free: "\<not> path_exists (crowded M) (''/d/a_'' @ str_nat (Suc M) @ ''.txt'')"
proof
  assume "path_exists (crowded M) (''/d/a_'' @ str_nat (Suc M) @ ''.txt'')"
  then obtain k where k: "k \<le> M" and "str_nat (Suc M) = str_nat k"
    by (auto simp: crowded_exists)
  then have "Suc M = k" by (intro str_nat_inj)
  with k show False by simp
qed

lemma crowded_resolved:
  "handle_filename_conflict (crowded M) ''/d/a.txt'' ''a.txt'' Map.empty
     = Some (''/d/a_'' @ str_nat (Suc M) @ ''.txt'', [''a.txt'' \<mapsto> Suc M])"
proof -
  have "conflict_loop (crowded M) ''/d'' ''a.txt'' ''a'' ''.txt'' ''/d/a.txt'' 0 Map.empty
      = Some (join ''/d'' (''a'' @ ''_'' @ str_nat (Suc M) @ ''.txt''), [''a.txt'' \<mapsto> Suc M])"
  proof (rule conflict_loop_least)
    show "\<not> path_exists (crowded M) (join ''/d'' (''a'' @ ''_'' @ str_nat (Suc M) @ ''.txt''))"
      unfolding crowded_candidate by (rule crowded_free)
    show "0 < Suc M" by simp
    show "\<forall>k. 0 < k \<and> k < Suc M \<longrightarrow>
            path_exists (crowded M) (join ''/d'' (''a'' @ ''_'' @ str_nat k @ ''.txt''))"
    proof (intro allI impI)
      fix k
      assume "0 < k \<and> k < Suc M"
      then have "1 \<le> k \<and> k \<le> M \<and> ''/d/a_'' @ str_nat k @ ''.txt'' = ''/d/a_'' @ str_nat k @ ''.txt''"
        by simp
      then show "path_exists (crowded M) (join ''/d'' (''a'' @ ''_'' @ str_nat k @ ''.txt''))"
        unfolding crowded_candidate crowded_exists by blast
    qed
    show "path_exists (crowded M) ''/d/a.txt''" by (simp add: crowded_exists)
  qed
  then show ?thesis
    unfolding crowded_candidate by (simp add: handle_filename_conflict_def path_literals)
qed

lemma crowded_finite: "finite (dom (crowded M))"
  unfolding crowded_def by (rule finite_dom_map_of)

text \<open>
  The loop has no bound on its attempts and no failure of its own: in the directory that
  holds \<open>a.txt\<close>, \<open>a_1.txt\<close>, \<dots>, \<open>a_10000.txt\<close> it makes 10001 attempts and returns
  \<open>a_10001.txt\<close>, and with \<open>M\<close> taken names, for every \<open>M\<close>, it returns the name with
  \<open>M + 1\<close>.
\<close>

theorem handle_filename_conflict_no_bound:
  "finite (dom (crowded 10000))
   \<and> handle_filename_conflict (crowded 10000) ''/d/a.txt'' ''a.txt'' Map.empty
       = Some (''/d/a_10001.txt'', [''a.txt'' \<mapsto> 10001])
   \<and> (\<forall>M. finite (dom (crowded M))
          \<and> handle_filename_conflict (crowded M) ''/d/a.txt'' ''a.txt'' Map.empty
              = Some (''/d/a_'' @ str_nat (Suc M) @ ''.txt'', [''a.txt'' \<mapsto> Suc M]))"
proof -
  have "str_nat (Suc 10000) = ''10001''"
    by (simp add: str_nat.simps digit_char_def)
  with crowded_resolved [of 10000]
  have "handle_filename_conflict (crowded 10000) ''/d/a.txt'' ''a.txt'' Map.empty
       = Some (''/d/a_10001.txt'', [''a.txt'' \<mapsto> 10001])"
    by simp
  then show ?thesis using crowded_finite crowded_resolved by blast
qed

subsection \<open>Duplicate detection\<close>

lemma read_blocks_all: "0 < block_size \<Longrightarrow> read_blocks block_size rest fed = fed @ rest"
proof (induction block_size rest fed rule: read_blocks.induct)
  case (1 block_size rest fed)
  show ?case
  proof (cases "take block_size rest = []")
    case True
    with 1(2) have "rest = []" by simp
    with True show ?thesis by (subst read_blocks.simps) simp
  next
    case False
    with 1 have "read_blocks block_size (drop block_size rest) (fed @ take block_size rest)
        = (fed @ take block_size rest) @ drop block_size rest"
      by simp
    with False show ?thesis by (simp add: read_blocks.simps [of block_size rest fed])
  qed
qed

lemma calculate_file_hash_readable:
  "disk p = Some f \<Longrightarrow> readable f \<Longrightarrow> calculate_file_hash md disk p 65536 = Inr (md (content f))"
  by (simp add: calculate_file_hash_def open_rb_def read_blocks_all)

lemma check_duplicate_file_sizes_differ:
  "disk a = Some fa \<Longrightarrow> disk b = Some fb \<Longrightarrow> length (content fa) \<noteq> length (content fb) \<Longrightarrow>
     check_duplicate_file md disk a b = Inr False"
  by (simp add: check_duplicate_file_def getsize_def)

lemma check_duplicate_file_same_content:
  "disk a = Some fa \<Longrightarrow> disk b = Some fb \<Longrightarrow> readable fa \<Longrightarrow> readable fb \<Longrightarrow>
     content fa = content fb \<Longrightarrow> check_duplicate_file md disk a b = Inr True"
  by (simp add: check_duplicate_file_def getsize_def calculate_file_hash_readable)

text \<open>
  C6. For two existing files, \<open>check_duplicate_file\<close> returns \<open>False\<close> whenever their
  sizes differ, whatever the digest function is and whether or not the files can be
  opened: no file is read on that path. It returns \<open>True\<close> whenever both files are
  readable and have the same bytes, of any length.
\<close>

theorem check_duplicate_file_decides:
  assumes a: "disk a = Some fa" and b: "disk b = Some fb"
  shows "(length (content fa) \<noteq> length (content fb) \<longrightarrow>
            check_duplicate_file md disk a b = Inr False)
         \<and> (readable fa \<and> readable fb \<and> content fa = content fb \<longrightarrow>
            check_duplicate_file md disk a b = Inr True)"
proof (intro conjI impI)
  assume "length (content fa) \<noteq> length (content fb)"
  with a b show "check_duplicate_file md disk a b = Inr False"
    by (rule check_duplicate_file_sizes_differ)
next
  assume "readable fa \<and> readable fb \<and> content fa = content fb"
  then show "check_duplicate_file md disk a b = Inr True"
    using a b by (simp add: check_duplicate_file_same_content)
qed

theorem check_duplicate_file_decides_witness:
  "check_duplicate_file (\<lambda>bytes. [])
     [''/d/a'' \<mapsto> report_file, ''/d/b'' \<mapsto> report_file\<lparr>content := ''other data''\<rparr>,
      ''/d/c'' \<mapsto> report_file] ''/d/a'' ''/d/b'' = Inr False
   \<and> check_duplicate_file (\<lambda>bytes. [])
     [''/d/a'' \<mapsto> report_file, ''/d/b'' \<mapsto> report_file\<lparr>content := ''other data''\<rparr>,
      ''/d/c'' \<mapsto> report_file] ''/d/a'' ''/d/c'' = Inr True"
proof -
  let ?disk = "[''/d/a'' \<mapsto> report_file, ''/d/b'' \<mapsto> report_file\<lparr>content := ''other data''\<rparr>,
      ''/d/c'' \<mapsto> report_file]"
  have a: "?disk ''/d/a'' = Some report_file" by simp
  have b: "?disk ''/d/b'' = Some (report_file\<lparr>content := ''other data''\<rparr>)" by simp
  have c: "?disk ''/d/c'' = Some report_file" by simp
  have r: "readable report_file" "length (content report_file) \<noteq> length ''other data''"
    by (simp_all add: report_file_def)
  from check_duplicate_file_decides [where disk = ?disk and a = "''/d/a''" and b = "''/d/b''"
      and md = "\<lambda>bytes. []", OF a b]
  have "check_duplicate_file (\<lambda>bytes. []) ?disk ''/d/a'' ''/d/b'' = Inr False"
    using r by simp
  moreover
  from check_duplicate_file_decides [where disk = ?disk and a = "''/d/a''" and b = "''/d/c''"
      and md = "\<lambda>bytes. []", OF a c]
  have "check_duplicate_file (\<lambda>bytes. []) ?disk ''/d/a'' ''/d/c'' = Inr True"
    using r by simp
  ultimately show ?thesis by (rule conjI)
qed

subsection \<open>The operations\<close>

lemma replace_or_skip_skipped:
  assumes "replace_or_skip md disk file_path new_path original_name new_name = (events, disk', e)"
    and "SkippedConflict a b \<in> set events"
  shows "disk' = disk \<and> e = None \<and> events = [SkippedConflict original_name new_name]"
  using assms
  by (auto simp: replace_or_skip_def split: if_splits sum.splits)

lemma replace_or_skip_no_failed:
  assumes "replace_or_skip md disk file_path new_path original_name new_name = (events, disk', e)"
  shows "Failed p x \<notin> set events \<and> SkippedNotEligible a \<notin> set events
         \<and> AlreadyCorrect a \<notin> set events \<and> AllDone \<notin> set events"
  using assms
  by (auto simp: replace_or_skip_def split: if_splits sum.splits)

lemma replace_or_skip_names:
  assumes "replace_or_skip md disk file_path new_path original_name new_name = (events, disk', e)"
  shows "(Renamed a b \<in> set events \<longrightarrow> a = original_name \<and> b = new_name)
         \<and> (SkippedConflict a b \<in> set events \<longrightarrow> a = original_name \<and> b = new_name)
         \<and> (DuplicateRemoved a \<in> set events \<longrightarrow> a = original_name)"
  using assms
  by (auto simp: replace_or_skip_def split: if_splits sum.splits)

lemma replace_or_skip_free:
  assumes "\<not> path_exists disk new_path" and "disk file_path = Some f"
  shows "replace_or_skip md disk file_path new_path original_name new_name
           = ([Renamed original_name new_name], disk(file_path := None, new_path \<mapsto> f), None)"
  using assms by (simp add: replace_or_skip_def os_rename_def)

lemma replace_or_skip_taken:
  assumes "path_exists disk new_path"
  shows "\<exists>events disk' e. replace_or_skip md disk file_path new_path original_name new_name = (events, disk', e)
     \<and> events \<noteq> [Renamed original_name new_name]"
  using assms
  by (auto simp: replace_or_skip_def split: if_splits sum.splits)

lemma catch_all_Some:
  assumes "catch_all file_path r = Some (evs, d)"
  obtains events e where "r = Some (events, d, e)"
    and "evs = (case e of None \<Rightarrow> events | Some x \<Rightarrow> events @ [Failed file_path x])"
  using assms by (auto simp: catch_all_def split: option.splits prod.splits)

lemma rename_try_cases [consumes 1, case_names early already resolved]:
  assumes "rename_file_with_date_try fromtimestamp md others disk file_path time_type
             = Some (events, disk', e)"
  obtains (early) "events = []" "disk' = disk" "e \<noteq> None"
  | (already) "events = [AlreadyCorrect (basename file_path)]" "disk' = disk" "e = None"
  | (resolved) new_name new_path resolved_path conflict_files where
      "handle_filename_conflict disk new_path (basename file_path) Map.empty
         = Some (resolved_path, conflict_files)"
      "replace_or_skip md (others disk) file_path resolved_path (basename file_path) new_name
         = (events, disk', e)"
  using assms
  by (auto simp: rename_file_with_date_try_def Let_def split: sum.splits if_splits option.splits)

lemma restore_try_cases [consumes 1, case_names not_eligible resolved]:
  assumes "restore_original_name_try md others disk file_path = Some (events, disk', e)"
  obtains (not_eligible) "events = [SkippedNotEligible (basename file_path)]" "disk' = disk"
      "e = None" "\<not> has_yy_mm_dd_prefix (clean_filename (basename file_path))"
  | (resolved) resolved_path conflict_files where
      "has_yy_mm_dd_prefix (clean_filename (basename file_path))"
      "handle_filename_conflict disk
         (join (dirname file_path) (remove_yy_mm_dd_prefix (clean_filename (basename file_path))))
         (basename file_path) Map.empty
         = Some (resolved_path, conflict_files)"
      "replace_or_skip md (others disk) file_path resolved_path (basename file_path)
         (remove_yy_mm_dd_prefix (clean_filename (basename file_path)))
         = (events, disk', e)"
  using assms
  by (auto simp: restore_original_name_try_def Let_def split: sum.splits if_splits option.splits)

lemma rename_try_no_failed:
  assumes "rename_file_with_date_try fromtimestamp md others disk file_path time_type
             = Some (events, disk', e)"
  shows "Failed p x \<notin> set events"
  using assms
proof (cases rule: rename_try_cases)
  case (resolved new_name new_path resolved_path conflict_files)
  then show ?thesis using replace_or_skip_no_failed by blast
qed simp_all

lemma restore_try_no_failed:
  assumes "restore_original_name_try md others disk file_path = Some (events, disk', e)"
  shows "Failed p x \<notin> set events"
  using assms
proof (cases rule: restore_try_cases)
  case (resolved resolved_path conflict_files)
  then show ?thesis using replace_or_skip_no_failed by blast
qed simp_all

lemma rename_try_skipped:
  assumes "rename_file_with_date_try fromtimestamp md others disk file_path time_type
             = Some (events, disk', e)"
    and "SkippedConflict a b \<in> set events"
  shows "disk' = others disk \<and> e = None"
  using assms
proof (cases rule: rename_try_cases)
  case (resolved new_name new_path resolved_path conflict_files)
  then show ?thesis using replace_or_skip_skipped assms(2) by blast
qed simp_all

lemma restore_try_skipped:
  assumes "restore_original_name_try md others disk file_path = Some (events, disk', e)"
  shows "(SkippedConflict a b \<in> set events \<longrightarrow> disk' = others disk \<and> e = None)
         \<and> (SkippedNotEligible c \<in> set events \<longrightarrow> disk' = disk \<and> e = None)"
  using assms
proof (cases rule: restore_try_cases)
  case (resolved resolved_path conflict_files)
  have "SkippedNotEligible c \<notin> set events"
    using replace_or_skip_no_failed [OF resolved(3)] by simp
  moreover have "SkippedConflict a b \<in> set events \<Longrightarrow> disk' = others disk \<and> e = None"
    using replace_or_skip_skipped [OF resolved(3)] by simp
  ultimately show ?thesis by blast
qed simp_all

lemma handle_conflict_free:
  "\<not> path_exists disk p \<Longrightarrow> handle_filename_conflict disk p original_name cf = Some (p, cf)"
  by (simp add: handle_filename_conflict_def conflict_loop_free)

lemma str_nat_1: "str_nat (0 + 1) = ''1''"
  by (simp add: str_nat.simps digit_char_def)

lemma handle_conflict_once:
  assumes "path_exists disk p" and "cf (basename p) = None"
    and "\<not> path_exists disk
           (join (dirname p) (fst (splitext (basename p)) @ ''_1'' @ snd (splitext (basename p))))"
  shows "handle_filename_conflict disk p original_name cf =
           Some (join (dirname p) (fst (splitext (basename p)) @ ''_1'' @ snd (splitext (basename p))),
                 cf(basename p \<mapsto> 1))"
proof -
  have "conflict_loop disk (dirname p) (basename p) (fst (splitext (basename p)))
          (snd (splitext (basename p))) p 0 cf
        = conflict_loop disk (dirname p) (basename p) (fst (splitext (basename p)))
            (snd (splitext (basename p)))
            (join (dirname p) (fst (splitext (basename p)) @ ''_1'' @ snd (splitext (basename p))))
            (0 + 1) (cf(basename p \<mapsto> 0 + 1))"
    using assms(1) by (simp only: conflict_loop_step str_nat_1 append.simps)
  also have "\<dots> = Some (join (dirname p)
                          (fst (splitext (basename p)) @ ''_1'' @ snd (splitext (basename p))),
                        cf(basename p \<mapsto> 0 + 1))"
    using assms(3) by (rule conflict_loop_free)
  finally show ?thesis using assms(2) by (simp add: handle_filename_conflict_def Let_def)
qed

lemma conflict_loop_result_free:
  assumes a: "conflict_loop disk bd bn stem ext p c cf = Some y"
  shows "\<not> path_exists disk (fst y)"
proof (rule conflict_loop.raw_induct
    [where P = "\<lambda>d _ _ _ _ _ _ _ y. \<not> path_exists d (fst y)", OF _ a])
  fix f :: "fs \<Rightarrow> path \<Rightarrow> string \<Rightarrow> string \<Rightarrow> string \<Rightarrow> path \<Rightarrow> nat \<Rightarrow> (string \<rightharpoonup> nat)
     \<Rightarrow> (path \<times> (string \<rightharpoonup> nat)) option"
  fix d :: fs and bd bn stem ext p and c :: nat and cf :: "string \<rightharpoonup> nat" and y
  assume IH: "\<And>d bd bn stem ext p c cf y. f d bd bn stem ext p c cf = Some y
                \<Longrightarrow> \<not> path_exists d (fst y)"
    and eq: "(if path_exists d p
              then f d bd bn stem ext (join bd (stem @ ''_'' @ str_nat (c + 1) @ ext)) (c + 1)
                     (cf(bn \<mapsto> c + 1))
              else Some (p, cf)) = Some y"
  show "\<not> path_exists d (fst y)"
  proof (cases "path_exists d p")
    case True
    with eq have "f d bd bn stem ext (join bd (stem @ ''_'' @ str_nat (c + 1) @ ext)) (c + 1)
                     (cf(bn \<mapsto> c + 1)) = Some y"
      by simp
    then show ?thesis by (rule IH)
  next
    case False
    with eq show ?thesis by auto
  qed
qed

lemma handle_filename_conflict_result_free:
  "handle_filename_conflict disk p original_name cf = Some (q, cf') \<Longrightarrow> \<not> path_exists disk q"
  using conflict_loop_result_free [where y = "(q, cf')"]
  by (simp add: handle_filename_conflict_def Let_def)

lemma replace_or_skip_alone:
  assumes "\<not> path_exists disk new_path"
    and "replace_or_skip md disk file_path new_path original_name new_name = (events, disk', e)"
  shows "DuplicateRemoved a \<notin> set events \<and> SkippedConflict a b \<notin> set events"
  using assms by (auto simp: replace_or_skip_def split: sum.splits)

lemma rename_alone_never_duplicate:
  assumes "rename_file_with_date fromtimestamp md (\<lambda>s. s) disk file_path time_type
             = Some (events, disk')"
  shows "DuplicateRemoved a \<notin> set events \<and> SkippedConflict a b \<notin> set events"
proof -
  from assms obtain evs e where
    t: "rename_file_with_date_try fromtimestamp md (\<lambda>s. s) disk file_path time_type
          = Some (evs, disk', e)"
    and ev: "events = (case e of None \<Rightarrow> evs | Some x \<Rightarrow> evs @ [Failed file_path x])"
    unfolding rename_file_with_date_def by (rule catch_all_Some)
  from t have "DuplicateRemoved a \<notin> set evs \<and> SkippedConflict a b \<notin> set evs"
  proof (cases rule: rename_try_cases)
    case (resolved new_name new_path resolved_path conflict_files)
    from resolved(1) have "\<not> path_exists disk resolved_path"
      by (rule handle_filename_conflict_result_free)
    then show ?thesis using resolved(2) by (rule replace_or_skip_alone)
  qed simp_all
  with ev show ?thesis by (cases e) simp_all
qed

lemma report_names:
  "basename ''/d/report.txt'' = ''report.txt''" "dirname ''/d/report.txt'' = ''/d''"
  "clean_filename ''report.txt'' = ''report.txt''"
  "remove_date_prefix ''report.txt'' = ''report.txt''"
  "join ''/d'' ''2024-03-05 report.txt'' = ''/d/2024-03-05 report.txt''"
  "\<not> has_valid_date_prefix ''report.txt'' ''2024-03-05 ''"
  by (simp_all add: basename_def dirname_def rstrip_def clean_filename_def illegal_chars_def
      remove_date_prefix_def date_prefix_pattern_atoms is_digit_def join_def
      has_valid_date_prefix_def Let_def)

lemma prefixed_names:
  "basename ''/d/2024-03-05 report.txt'' = ''2024-03-05 report.txt''"
  "dirname ''/d/2024-03-05 report.txt'' = ''/d''"
  "clean_filename ''2024-03-05 report.txt'' = ''2024-03-05 report.txt''"
  "remove_date_prefix ''2024-03-05 report.txt'' = ''report.txt''"
  "splitext ''2024-03-05 report.txt'' = (''2024-03-05 report'', ''.txt'')"
  "join ''/d'' ''2024-03-05 report_1.txt'' = ''/d/2024-03-05 report_1.txt''"
  by (simp_all add: basename_def dirname_def rstrip_def clean_filename_def illegal_chars_def
      remove_date_prefix_def date_prefix_pattern_atoms is_digit_def join_def splitext_def
      Let_def)

lemma march5_prefix:
  "get_file_time disk p ''creation'' = getctime disk p"
  "march5 t = Inr \<lparr>year = 2024, month = 3, day = 5\<rparr>"
  by (simp_all add: get_file_time_def march5_def)

lemma disk_plain_files:
  "disk_plain ''/d/report.txt'' = Some report_file"
  "\<not> path_exists disk_plain ''/d/2024-03-05 report.txt''"
  "disk_plain ''/d/gone.txt'' = None"
  by (simp_all add: disk_plain_def path_exists_def)

lemma add_prefix_example:
  "rename_file_with_date march5 md (\<lambda>s. s) disk_plain ''/d/report.txt'' ''creation''
   = Some ([Renamed ''report.txt'' ''2024-03-05 report.txt''],
           disk_plain(''/d/report.txt'' := None, ''/d/2024-03-05 report.txt'' \<mapsto> report_file))"
proof -
  have "rename_file_with_date_try march5 md (\<lambda>s. s) disk_plain ''/d/report.txt'' ''creation''
      = Some ([Renamed ''report.txt'' ''2024-03-05 report.txt''],
           disk_plain(''/d/report.txt'' := None, ''/d/2024-03-05 report.txt'' \<mapsto> report_file), None)"
    by (simp add: rename_file_with_date_try_def march5_prefix strftime_ymd_example getctime_def
        Let_def report_names disk_plain_files handle_conflict_free replace_or_skip_free)
  then show ?thesis by (simp add: rename_file_with_date_def catch_all_def)
qed

lemma disk_prefixed_files:
  "disk_prefixed ''/d/2024-03-05 report.txt'' = Some report_file"
  "path_exists disk_prefixed ''/d/2024-03-05 report.txt''"
  "\<not> path_exists disk_prefixed ''/d/2024-03-05 report_1.txt''"
  by (simp_all add: disk_prefixed_def path_exists_def)

lemma disk_prefixed_resolve:
  "handle_filename_conflict disk_prefixed ''/d/2024-03-05 report.txt'' original_name Map.empty
     = Some (''/d/2024-03-05 report_1.txt'', [''2024-03-05 report.txt'' \<mapsto> 1])"
  using handle_conflict_once [where disk = disk_prefixed and p = "''/d/2024-03-05 report.txt''"
      and cf = Map.empty and original_name = original_name]
  by (simp add: prefixed_names disk_prefixed_files)

text \<open>
  C1, what the code does. The file \<open>2024-03-05 report.txt\<close>, whose date is 5 March
  2024, is already correctly prefixed: its cleaned name is the new date prefix followed
  by its cleaned name without prefix. \<open>rename_file_with_date\<close> tests the name
  \<^emph>\<open>without\<close> its prefix for the date prefix, so it does not report \<open>AlreadyCorrect\<close>:
  it finds its own path taken and renames the file to \<open>2024-03-05 report_1.txt\<close>.
\<close>

theorem already_prefixed_is_renamed:
  "rename_file_with_date march5 md (\<lambda>s. s) disk_prefixed ''/d/2024-03-05 report.txt'' ''creation''
   = Some ([Renamed ''2024-03-05 report.txt'' ''2024-03-05 report.txt''],
           disk_prefixed(''/d/2024-03-05 report.txt'' := None,
             ''/d/2024-03-05 report_1.txt'' \<mapsto> report_file))"
proof -
  have "rename_file_with_date_try march5 md (\<lambda>s. s) disk_prefixed ''/d/2024-03-05 report.txt''
          ''creation''
      = Some ([Renamed ''2024-03-05 report.txt'' ''2024-03-05 report.txt''],
           disk_prefixed(''/d/2024-03-05 report.txt'' := None,
             ''/d/2024-03-05 report_1.txt'' \<mapsto> report_file), None)"
    by (simp add: rename_file_with_date_try_def march5_prefix strftime_ymd_example getctime_def
        Let_def report_names prefixed_names disk_prefixed_files disk_prefixed_resolve
        replace_or_skip_free)
  then show ?thesis by (simp add: rename_file_with_date_def catch_all_def)
qed

lemma disk_twin_files:
  "disk_twin ''/d/report.txt'' = Some report_file"
  "disk_twin ''/d/2024-03-05 report.txt'' = Some report_file"
  "path_exists disk_twin ''/d/2024-03-05 report.txt''"
  "\<not> path_exists disk_twin ''/d/2024-03-05 report_1.txt''"
  by (simp_all add: disk_twin_def path_exists_def)

lemma disk_twin_resolve:
  "handle_filename_conflict disk_twin ''/d/2024-03-05 report.txt'' original_name Map.empty
     = Some (''/d/2024-03-05 report_1.txt'', [''2024-03-05 report.txt'' \<mapsto> 1])"
  using handle_conflict_once [where disk = disk_twin and p = "''/d/2024-03-05 report.txt''"
      and cf = Map.empty and original_name = original_name]
  by (simp add: prefixed_names disk_twin_files)

text \<open>
  C2, what the code does. With \<open>report.txt\<close> and a \<open>2024-03-05 report.txt\<close> of the
  same bytes in the directory, \<open>handle_filename_conflict\<close> has already moved the
  destination to the free path \<open>2024-03-05 report_1.txt\<close> when
  \<open>os.path.exists(new_path)\<close> is tested, so nothing is compared or removed: the file is
  renamed to \<open>2024-03-05 report_1.txt\<close>, no \<open>DuplicateRemoved\<close> is reported and both
  copies remain.
\<close>

theorem same_content_is_renamed:
  "rename_file_with_date march5 md (\<lambda>s. s) disk_twin ''/d/report.txt'' ''creation''
   = Some ([Renamed ''report.txt'' ''2024-03-05 report.txt''],
           disk_twin(''/d/report.txt'' := None, ''/d/2024-03-05 report_1.txt'' \<mapsto> report_file))"
proof -
  have "rename_file_with_date_try march5 md (\<lambda>s. s) disk_twin ''/d/report.txt'' ''creation''
      = Some ([Renamed ''report.txt'' ''2024-03-05 report.txt''],
           disk_twin(''/d/report.txt'' := None, ''/d/2024-03-05 report_1.txt'' \<mapsto> report_file),
           None)"
    by (simp add: rename_file_with_date_try_def march5_prefix strftime_ymd_example getctime_def
        Let_def report_names disk_twin_files disk_twin_resolve replace_or_skip_free)
  then show ?thesis by (simp add: rename_file_with_date_def catch_all_def)
qed

lemma catch_all_raised:
  "catch_all file_path (Some (events, disk', Some e)) = Some (events @ [Failed file_path e], disk')"
  "catch_all file_path (Some (events, disk', None)) = Some (events, disk')"
  by (simp_all add: catch_all_def)

lemma rename_skipped:
  assumes r: "rename_file_with_date fromtimestamp md others disk file_path time_type
             = Some (events, disk')"
    and s: "SkippedConflict a b \<in> set events"
  shows "disk' = others disk \<and> events = [SkippedConflict a b]"
proof -
  from r obtain evs e where
    t: "rename_file_with_date_try fromtimestamp md others disk file_path time_type
          = Some (evs, disk', e)"
    and ev: "events = (case e of None \<Rightarrow> evs | Some x \<Rightarrow> evs @ [Failed file_path x])"
    unfolding rename_file_with_date_def by (rule catch_all_Some)
  from ev s have m: "SkippedConflict a b \<in> set evs" by (cases e) simp_all
  from t show ?thesis
  proof (cases rule: rename_try_cases)
    case (resolved new_name new_path resolved_path conflict_files)
    from replace_or_skip_skipped [OF resolved(2) m] m ev show ?thesis by auto
  qed (use m in simp_all)
qed

lemma restore_skipped:
  assumes r: "restore_original_name md others disk file_path = Some (events, disk')"
  shows "(SkippedConflict a b \<in> set events \<longrightarrow> disk' = others disk \<and> events = [SkippedConflict a b])
       \<and> (SkippedNotEligible c \<in> set events \<longrightarrow> disk' = disk \<and> events = [SkippedNotEligible c])"
proof -
  from r obtain evs e where
    t: "restore_original_name_try md others disk file_path = Some (evs, disk', e)"
    and ev: "events = (case e of None \<Rightarrow> evs | Some x \<Rightarrow> evs @ [Failed file_path x])"
    unfolding restore_original_name_def by (rule catch_all_Some)
  have m: "SkippedConflict a b \<in> set events \<Longrightarrow> SkippedConflict a b \<in> set evs"
    "SkippedNotEligible c \<in> set events \<Longrightarrow> SkippedNotEligible c \<in> set evs"
    using ev by (cases e; simp)+
  from t show ?thesis
  proof (cases rule: restore_try_cases)
    case not_eligible
    then show ?thesis using ev m by auto
  next
    case (resolved resolved_path conflict_files)
    have n: "SkippedNotEligible c \<notin> set evs"
      using replace_or_skip_no_failed [OF resolved(3)] by simp
    have "disk' = others disk \<and> events = [SkippedConflict a b]"
      if k: "SkippedConflict a b \<in> set evs"
    proof -
      note q = replace_or_skip_skipped [OF resolved(3) k]
      from q k have "evs = [SkippedConflict a b]" by simp
      with q ev show ?thesis by simp
    qed
    with n m show ?thesis by blast
  qed
qed

text \<open>
  C8. When \<open>rename_file_with_date\<close> or \<open>restore_original_name\<close> reports
  \<open>SkippedConflict\<close>, that is its only event and the file system it leaves is the one
  it tested with \<open>os.path.exists\<close> (the state \<open>others disk\<close>; the state \<open>disk\<close> itself
  for a worker that runs alone): it has renamed and removed nothing, so the source file
  and the file at the destination are as they were. When \<open>restore_original_name\<close>
  reports \<open>SkippedNotEligible\<close>, that is its only event and the file system is
  unchanged.
\<close>

theorem skipped_leaves_file_system:
  "(rename_file_with_date fromtimestamp md others disk file_path time_type = Some (events, disk')
      \<and> SkippedConflict a b \<in> set events
      \<longrightarrow> disk' = others disk \<and> events = [SkippedConflict a b])
   \<and> (restore_original_name md others disk file_path = Some (events, disk')
      \<and> SkippedConflict a b \<in> set events
      \<longrightarrow> disk' = others disk \<and> events = [SkippedConflict a b])
   \<and> (restore_original_name md others disk file_path = Some (events, disk')
      \<and> SkippedNotEligible c \<in> set events
      \<longrightarrow> disk' = disk \<and> events = [SkippedNotEligible c])"
  using rename_skipped [of fromtimestamp md others disk file_path time_type events disk' a b]
    restore_skipped [of md others disk file_path events disk' a b c]
  by blast

lemma intruder_files:
  "path_exists (intruder disk_plain) ''/d/2024-03-05 report.txt''"
  "getsize (intruder disk_plain) ''/d/report.txt'' = Inr 4"
  "getsize (intruder disk_plain) ''/d/2024-03-05 report.txt'' = Inr 10"
  by (simp_all add: intruder_def disk_plain_def path_exists_def getsize_def report_file_def)

lemma skipped_conflict_example:
  "\<exists>disk'. rename_file_with_date march5 md intruder disk_plain ''/d/report.txt'' ''creation''
     = Some ([SkippedConflict ''report.txt'' ''2024-03-05 report.txt''], disk')"
proof -
  have "replace_or_skip md (intruder disk_plain) ''/d/report.txt'' ''/d/2024-03-05 report.txt''
          ''report.txt'' ''2024-03-05 report.txt''
        = ([SkippedConflict ''report.txt'' ''2024-03-05 report.txt''], intruder disk_plain, None)"
    by (simp add: replace_or_skip_def intruder_files check_duplicate_file_def)
  then have "rename_file_with_date_try march5 md intruder disk_plain ''/d/report.txt'' ''creation''
      = Some ([SkippedConflict ''report.txt'' ''2024-03-05 report.txt''], intruder disk_plain, None)"
    by (simp add: rename_file_with_date_try_def march5_prefix strftime_ymd_example getctime_def
        Let_def report_names disk_plain_files handle_conflict_free)
  then show ?thesis by (simp add: rename_file_with_date_def catch_all_def)
qed

lemma not_eligible_example:
  "\<exists>disk'. restore_original_name md (\<lambda>s. s) disk_plain ''/d/report.txt''
     = Some ([SkippedNotEligible ''report.txt''], disk')"
  by (simp add: restore_original_name_def restore_original_name_try_def catch_all_def Let_def
      report_names has_yy_mm_dd_prefix_def date_prefix_pattern_atoms is_digit_def)

theorem skipped_leaves_file_system_witness:
  "rename_file_with_date march5 (\<lambda>bytes. []) intruder disk_plain ''/d/report.txt'' ''creation''
     = Some ([SkippedConflict ''report.txt'' ''2024-03-05 report.txt''], intruder disk_plain)
   \<and> restore_original_name (\<lambda>bytes. []) (\<lambda>s. s) disk_plain ''/d/report.txt''
     = Some ([SkippedNotEligible ''report.txt''], disk_plain)"
proof -
  obtain d1 where d1: "rename_file_with_date march5 (\<lambda>bytes. []) intruder disk_plain
      ''/d/report.txt'' ''creation''
     = Some ([SkippedConflict ''report.txt'' ''2024-03-05 report.txt''], d1)"
    using skipped_conflict_example by blast
  obtain d2 where d2: "restore_original_name (\<lambda>bytes. []) (\<lambda>s. s) disk_plain ''/d/report.txt''
     = Some ([SkippedNotEligible ''report.txt''], d2)"
    using not_eligible_example by blast
  have "d1 = intruder disk_plain"
    using skipped_leaves_file_system [where fromtimestamp = march5 and md = "\<lambda>bytes. []"
        and others = intruder and disk = disk_plain and file_path = "''/d/report.txt''"
        and time_type = "''creation''" and disk' = d1 and a = "''report.txt''"
        and b = "''2024-03-05 report.txt''"
        and events = "[SkippedConflict ''report.txt'' ''2024-03-05 report.txt'']"] d1
    by simp
  moreover have "d2 = disk_plain"
    using skipped_leaves_file_system [where md = "\<lambda>bytes. []"
        and others = "\<lambda>s. s" and disk = disk_plain and file_path = "''/d/report.txt''"
        and disk' = d2 and c = "''report.txt''"
        and events = "[SkippedNotEligible ''report.txt'']"] d2
    by simp
  ultimately show ?thesis using d1 d2 by simp
qed

lemma run_tasks_step:
  "task disk file_path = Some (events, disk') \<Longrightarrow>
     run_tasks task disk (file_path # rest)
       = (case run_tasks task disk' rest of
            None \<Rightarrow> None
          | Some (evs, d) \<Rightarrow> Some (events @ evs, d))"
  by simp

text \<open>
  C9. Whenever the \<open>try\<close> block of \<open>rename_file_with_date\<close> or of
  \<open>restore_original_name\<close> ends with an exception \<open>e\<close> (from the time stamp, the
  hashing, the removal or the renaming), the operation returns normally, with the events
  emitted so far followed by one \<open>Failed file_path e\<close>; the block itself emits no
  \<open>Failed\<close> event, so there is exactly one, and none when no exception was raised. The
  worker then goes on with the remaining files, from the file system the failed
  operation left.
\<close>

theorem per_file_errors_contained:
  "(rename_file_with_date_try fromtimestamp md others disk file_path time_type
        = Some (events, disk', Some e)
      \<longrightarrow> rename_file_with_date fromtimestamp md others disk file_path time_type
            = Some (events @ [Failed file_path e], disk')
          \<and> (\<forall>p x. Failed p x \<notin> set events)
          \<and> run_tasks (worker_task fromtimestamp md others time_type ''add_prefix'') disk
                (file_path # rest)
              = (case run_tasks (worker_task fromtimestamp md others time_type ''add_prefix'')
                        disk' rest of
                   None \<Rightarrow> None
                 | Some (evs, d) \<Rightarrow> Some ((events @ [Failed file_path e]) @ evs, d)))
   \<and> (restore_original_name_try md others disk file_path = Some (events, disk', Some e)
      \<longrightarrow> restore_original_name md others disk file_path
            = Some (events @ [Failed file_path e], disk')
          \<and> (\<forall>p x. Failed p x \<notin> set events)
          \<and> run_tasks (worker_task fromtimestamp md others time_type ''restore_name'') disk
                (file_path # rest)
              = (case run_tasks (worker_task fromtimestamp md others time_type ''restore_name'')
                        disk' rest of
                   None \<Rightarrow> None
                 | Some (evs, d) \<Rightarrow> Some ((events @ [Failed file_path e]) @ evs, d)))
   \<and> (rename_file_with_date_try fromtimestamp md others disk file_path time_type
        = Some (events, disk', None)
      \<longrightarrow> rename_file_with_date fromtimestamp md others disk file_path time_type
            = Some (events, disk')
          \<and> (\<forall>p x. Failed p x \<notin> set events))
   \<and> (restore_original_name_try md others disk file_path = Some (events, disk', None)
      \<longrightarrow> restore_original_name md others disk file_path = Some (events, disk')
          \<and> (\<forall>p x. Failed p x \<notin> set events))"
proof (intro conjI impI allI)
  assume t: "rename_file_with_date_try fromtimestamp md others disk file_path time_type
        = Some (events, disk', Some e)"
  then show r: "rename_file_with_date fromtimestamp md others disk file_path time_type
            = Some (events @ [Failed file_path e], disk')"
    by (simp add: rename_file_with_date_def catch_all_raised)
  have "worker_task fromtimestamp md others time_type ''add_prefix'' disk file_path
          = Some (events @ [Failed file_path e], disk')"
    using r by (simp add: worker_task_def)
  then show "run_tasks (worker_task fromtimestamp md others time_type ''add_prefix'') disk
                (file_path # rest)
              = (case run_tasks (worker_task fromtimestamp md others time_type ''add_prefix'')
                        disk' rest of
                   None \<Rightarrow> None
                 | Some (evs, d) \<Rightarrow> Some ((events @ [Failed file_path e]) @ evs, d))"
    by (rule run_tasks_step)
  show "Failed p x \<notin> set events" for p x using t by (rule rename_try_no_failed)
next
  assume t: "restore_original_name_try md others disk file_path = Some (events, disk', Some e)"
  then show r: "restore_original_name md others disk file_path
            = Some (events @ [Failed file_path e], disk')"
    by (simp add: restore_original_name_def catch_all_raised)
  have "worker_task fromtimestamp md others time_type ''restore_name'' disk file_path
          = Some (events @ [Failed file_path e], disk')"
    using r by (simp add: worker_task_def)
  then show "run_tasks (worker_task fromtimestamp md others time_type ''restore_name'') disk
                (file_path # rest)
              = (case run_tasks (worker_task fromtimestamp md others time_type ''restore_name'')
                        disk' rest of
                   None \<Rightarrow> None
                 | Some (evs, d) \<Rightarrow> Some ((events @ [Failed file_path e]) @ evs, d))"
    by (rule run_tasks_step)
  show "Failed p x \<notin> set events" for p x using t by (rule restore_try_no_failed)
next
  assume t: "rename_file_with_date_try fromtimestamp md others disk file_path time_type
        = Some (events, disk', None)"
  then show "rename_file_with_date fromtimestamp md others disk file_path time_type
            = Some (events, disk')"
    by (simp add: rename_file_with_date_def catch_all_raised)
  show "Failed p x \<notin> set events" for p x using t by (rule rename_try_no_failed)
next
  assume t: "restore_original_name_try md others disk file_path = Some (events, disk', None)"
  then show "restore_original_name md others disk file_path = Some (events, disk')"
    by (simp add: restore_original_name_def catch_all_raised)
  show "Failed p x \<notin> set events" for p x using t by (rule restore_try_no_failed)
qed

lemma gone_example:
  "rename_file_with_date_try march5 md (\<lambda>s. s) disk_plain ''/d/gone.txt'' ''creation''
     = Some ([], disk_plain, Some (FileNotFoundError ''/d/gone.txt''))"
  by (simp add: rename_file_with_date_try_def march5_prefix getctime_def disk_plain_files)

theorem per_file_errors_contained_witness:
  "rename_file_with_date march5 (\<lambda>bytes. []) (\<lambda>s. s) disk_plain ''/d/gone.txt'' ''creation''
     = Some ([Failed ''/d/gone.txt'' (FileNotFoundError ''/d/gone.txt'')], disk_plain)
   \<and> run_tasks (worker_task march5 (\<lambda>bytes. []) (\<lambda>s. s) ''creation'' ''add_prefix'') disk_plain
        [''/d/gone.txt'', ''/d/report.txt'']
     = Some ([Failed ''/d/gone.txt'' (FileNotFoundError ''/d/gone.txt''),
              Renamed ''report.txt'' ''2024-03-05 report.txt''],
             disk_plain(''/d/report.txt'' := None, ''/d/2024-03-05 report.txt'' \<mapsto> report_file))"
proof -
  note t = per_file_errors_contained [where fromtimestamp = march5 and md = "\<lambda>bytes. []"
      and others = "\<lambda>s. s" and disk = disk_plain and file_path = "''/d/gone.txt''"
      and time_type = "''creation''" and events = "[]" and disk' = disk_plain
      and e = "FileNotFoundError ''/d/gone.txt''" and rest = "[''/d/report.txt'']",
      THEN conjunct1, rule_format, OF gone_example]
  have "run_tasks (worker_task march5 (\<lambda>bytes. []) (\<lambda>s. s) ''creation'' ''add_prefix'') disk_plain
          [''/d/report.txt'']
        = Some ([Renamed ''report.txt'' ''2024-03-05 report.txt''],
             disk_plain(''/d/report.txt'' := None, ''/d/2024-03-05 report.txt'' \<mapsto> report_file))"
    by (simp add: worker_task_def add_prefix_example)
  with t show ?thesis by simp
qed

lemma match_start_suffix: "match_start pat s = Some r \<Longrightarrow> set r \<subseteq> set s"
proof (induction pat s rule: match_start.induct)
  case (3 a as c cs)
  then show ?case by (auto split: if_splits)
qed simp_all

lemma date_atoms_legal:
  "a \<in> set date_prefix_pattern \<Longrightarrow> atom_matches a c \<Longrightarrow> c \<notin> set illegal_chars"
  by (auto simp: date_prefix_pattern_atoms is_digit_def illegal_chars_def)

lemma date_atoms_clean:
  "a \<in> set date_prefix_pattern \<Longrightarrow>
     atom_matches a (if c \<in> set illegal_chars then CHR ''_'' else c) = atom_matches a c"
  by (auto simp: date_prefix_pattern_atoms is_digit_def illegal_chars_def)

lemma clean_filename_Cons:
  "clean_filename [] = []"
  "clean_filename (c # cs) = (if c \<in> set illegal_chars then CHR ''_'' else c) # clean_filename cs"
  by (simp_all add: clean_filename_def)

lemma match_start_clean:
  assumes "\<And>a c. a \<in> set pat \<Longrightarrow>
             atom_matches a (if c \<in> set illegal_chars then CHR ''_'' else c) = atom_matches a c"
  shows "match_start pat (clean_filename s) = map_option clean_filename (match_start pat s)"
  using assms
proof (induction pat s rule: match_start.induct)
  case (1 s)
  then show ?case by simp
next
  case (2 a as)
  then show ?case by (simp add: clean_filename_Cons)
next
  case (3 a as c cs)
  have h: "atom_matches a (if c \<in> set illegal_chars then CHR ''_'' else c) = atom_matches a c"
    by (rule 3(2)) simp
  show ?case
  proof (cases "atom_matches a c")
    case True
    have "match_start as (clean_filename cs) = map_option clean_filename (match_start as cs)"
      by (rule 3(1) [OF True]) (simp add: 3(2))
    with True h show ?thesis by (simp add: clean_filename_Cons)
  next
    case False
    with h show ?thesis by (simp add: clean_filename_Cons)
  qed
qed

lemma match_start_illegal_rest:
  assumes "match_start pat s = Some r"
    and "\<And>a c. a \<in> set pat \<Longrightarrow> atom_matches a c \<Longrightarrow> c \<notin> set illegal_chars"
    and "set s \<inter> set illegal_chars \<noteq> {}"
  shows "set r \<inter> set illegal_chars \<noteq> {}"
  using assms
proof (induction pat s rule: match_start.induct)
  case (3 a as c cs)
  from 3(2) have m: "atom_matches a c" and r: "match_start as cs = Some r"
    by (simp_all split: if_splits)
  from m have "c \<notin> set illegal_chars" by (rule 3(3) [rotated]) simp
  with 3(4) have cs: "set cs \<inter> set illegal_chars \<noteq> {}" by auto
  show ?case
  proof (rule 3(1) [OF m r])
    show "\<And>a' c'. a' \<in> set as \<Longrightarrow> atom_matches a' c' \<Longrightarrow> c' \<notin> set illegal_chars"
      using 3(3) by (meson list.set_intros(2))
    show "set cs \<inter> set illegal_chars \<noteq> {}" by (rule cs)
  qed
qed simp_all

lemma remove_prefix_clean:
  "remove_yy_mm_dd_prefix (clean_filename x) = clean_filename (remove_yy_mm_dd_prefix x)"
  using match_start_clean [of date_prefix_pattern x, OF date_atoms_clean]
  by (simp add: remove_yy_mm_dd_prefix_def split: option.splits)

lemma clean_changes_illegal:
  "set r \<inter> set illegal_chars \<noteq> {} \<Longrightarrow> clean_filename r \<noteq> r"
  using clean_filename_legal [of r] by auto

lemma restored_name_differs:
  assumes "has_yy_mm_dd_prefix (clean_filename x)" and "set x \<inter> set illegal_chars \<noteq> {}"
  shows "remove_yy_mm_dd_prefix (clean_filename x) \<noteq> remove_yy_mm_dd_prefix x"
proof -
  from assms(1) have "match_start date_prefix_pattern (clean_filename x) \<noteq> None"
    by (simp add: has_yy_mm_dd_prefix_def clean_filename_idem)
  then obtain r where r: "match_start date_prefix_pattern x = Some r"
    using match_start_clean [of date_prefix_pattern x, OF date_atoms_clean] by auto
  from r date_atoms_legal assms(2) have "set r \<inter> set illegal_chars \<noteq> {}"
    by (rule match_start_illegal_rest)
  then have "clean_filename r \<noteq> r" by (rule clean_changes_illegal)
  moreover have "remove_yy_mm_dd_prefix x = r" using r by (simp add: remove_yy_mm_dd_prefix_def)
  ultimately show ?thesis by (simp add: remove_prefix_clean)
qed

lemma restored_name_legal:
  "set (remove_yy_mm_dd_prefix (clean_filename x)) \<inter> set illegal_chars = {}"
  unfolding remove_prefix_clean by (rule clean_filename_legal)

lemma restore_renamed_names:
  assumes r: "restore_original_name md others disk file_path = Some (events, disk')"
    and m: "Renamed a b \<in> set events"
  shows "a = basename file_path
         \<and> b = remove_yy_mm_dd_prefix (clean_filename (basename file_path))"
proof -
  from r obtain evs e where
    t: "restore_original_name_try md others disk file_path = Some (evs, disk', e)"
    and ev: "events = (case e of None \<Rightarrow> evs | Some x \<Rightarrow> evs @ [Failed file_path x])"
    unfolding restore_original_name_def by (rule catch_all_Some)
  from ev m have k: "Renamed a b \<in> set evs" by (cases e) simp_all
  from t show ?thesis
  proof (cases rule: restore_try_cases)
    case (resolved resolved_path conflict_files)
    from replace_or_skip_names [OF resolved(3)] k show ?thesis by blast
  qed (use k in simp_all)
qed

lemma restore_free:
  assumes f: "disk file_path = Some f"
    and el: "has_yy_mm_dd_prefix (clean_filename (basename file_path))"
    and free: "\<not> path_exists disk
       (join (dirname file_path) (remove_yy_mm_dd_prefix (clean_filename (basename file_path))))"
  shows "restore_original_name md (\<lambda>s. s) disk file_path
    = Some ([Renamed (basename file_path)
               (remove_yy_mm_dd_prefix (clean_filename (basename file_path)))],
            disk(file_path := None,
              join (dirname file_path)
                (remove_yy_mm_dd_prefix (clean_filename (basename file_path))) \<mapsto> f))"
  using el
  by (simp add: restore_original_name_def restore_original_name_try_def Let_def
      handle_conflict_free [OF free] replace_or_skip_free [OF free f] catch_all_raised)

text \<open>
  C10. For every file whose cleaned base name has a date prefix, the name that
  \<open>restore_original_name\<close> reports and renames to is the cleaned base name without its
  prefix: every \<open>Renamed\<close> event carries it, and when its path is free (and the name is
  not empty) a worker that runs alone moves the file there. This name has none of the
  characters \<open>\ / * ? : " < > |\<close>; so when the base name has one of them the restored
  name differs from the base name without its prefix.
\<close>

theorem restore_name_sanitizes:
  fixes file_path :: path
  assumes el: "has_yy_mm_dd_prefix (clean_filename (basename file_path))"
  defines "new_name \<equiv> remove_yy_mm_dd_prefix (clean_filename (basename file_path))"
  shows "(\<forall>events disk' a b.
            restore_original_name md others disk file_path = Some (events, disk')
              \<and> Renamed a b \<in> set events
            \<longrightarrow> a = basename file_path \<and> b = new_name)
         \<and> (disk file_path = Some f \<and> new_name \<noteq> []
              \<and> \<not> path_exists disk (join (dirname file_path) new_name)
            \<longrightarrow> restore_original_name md (\<lambda>s. s) disk file_path
                  = Some ([Renamed (basename file_path) new_name],
                          disk(file_path := None, join (dirname file_path) new_name \<mapsto> f)))
         \<and> set new_name \<inter> set illegal_chars = {}
         \<and> (set (basename file_path) \<inter> set illegal_chars \<noteq> {}
            \<longrightarrow> new_name \<noteq> remove_yy_mm_dd_prefix (basename file_path))"
proof (intro conjI allI impI)
  fix events disk' a b
  assume "restore_original_name md others disk file_path = Some (events, disk')
              \<and> Renamed a b \<in> set events"
  then have "a = basename file_path \<and> b = new_name"
    unfolding new_name_def using restore_renamed_names by blast
  then show "a = basename file_path" "b = new_name" by simp_all
next
  assume "disk file_path = Some f \<and> new_name \<noteq> []
              \<and> \<not> path_exists disk (join (dirname file_path) new_name)"
  then show "restore_original_name md (\<lambda>s. s) disk file_path
                  = Some ([Renamed (basename file_path) new_name],
                          disk(file_path := None, join (dirname file_path) new_name \<mapsto> f))"
    unfolding new_name_def using el by (simp add: restore_free)
next
  show "set new_name \<inter> set illegal_chars = {}"
    unfolding new_name_def by (rule restored_name_legal)
next
  assume "set (basename file_path) \<inter> set illegal_chars \<noteq> {}"
  with el show "new_name \<noteq> remove_yy_mm_dd_prefix (basename file_path)"
    unfolding new_name_def by (rule restored_name_differs)
qed

lemma colon_names:
  "basename ''/d/2024-03-05 a:b.txt'' = ''2024-03-05 a:b.txt''"
  "dirname ''/d/2024-03-05 a:b.txt'' = ''/d''"
  "clean_filename ''2024-03-05 a:b.txt'' = ''2024-03-05 a_b.txt''"
  "remove_yy_mm_dd_prefix ''2024-03-05 a_b.txt'' = ''a_b.txt''"
  "remove_yy_mm_dd_prefix ''2024-03-05 a:b.txt'' = ''a:b.txt''"
  "has_yy_mm_dd_prefix ''2024-03-05 a_b.txt''"
  "join ''/d'' ''a_b.txt'' = ''/d/a_b.txt''"
  by (simp_all add: basename_def dirname_def rstrip_def clean_filename_def illegal_chars_def
      remove_yy_mm_dd_prefix_def has_yy_mm_dd_prefix_def date_prefix_pattern_atoms is_digit_def
      join_def Let_def)

lemma disk_colon_files:
  "disk_colon ''/d/2024-03-05 a:b.txt'' = Some report_file"
  "\<not> path_exists disk_colon ''/d/a_b.txt''"
  by (simp_all add: disk_colon_def path_exists_def)

theorem restore_name_sanitizes_witness:
  "has_yy_mm_dd_prefix (clean_filename (basename ''/d/2024-03-05 a:b.txt''))
   \<and> restore_original_name (\<lambda>bytes. []) (\<lambda>s. s) disk_colon ''/d/2024-03-05 a:b.txt''
       = Some ([Renamed ''2024-03-05 a:b.txt'' ''a_b.txt''],
               disk_colon(''/d/2024-03-05 a:b.txt'' := None, ''/d/a_b.txt'' \<mapsto> report_file))
   \<and> ''a_b.txt'' \<noteq> remove_yy_mm_dd_prefix (basename ''/d/2024-03-05 a:b.txt'')"
proof -
  have el: "has_yy_mm_dd_prefix (clean_filename (basename ''/d/2024-03-05 a:b.txt''))"
    by (simp add: colon_names)
  note t = restore_name_sanitizes [OF el, where md = "\<lambda>bytes. []" and disk = disk_colon
      and f = report_file, THEN conjunct2, THEN conjunct1]
  have "restore_original_name (\<lambda>bytes. []) (\<lambda>s. s) disk_colon ''/d/2024-03-05 a:b.txt''
       = Some ([Renamed ''2024-03-05 a:b.txt'' ''a_b.txt''],
               disk_colon(''/d/2024-03-05 a:b.txt'' := None, ''/d/a_b.txt'' \<mapsto> report_file))"
    using t by (simp add: colon_names disk_colon_files)
  then show ?thesis using el by (simp add: colon_names)
qed

subsection \<open>The prefix codec\<close>








end
